theory Spec2Isabelle
  imports Complex_Main "HOL-Library.Log_Nat"
begin

text \<open>
  script.js of Mapty: the classes Workout, Running and Cycling, and the class App with its
  handlers for a click on the map, a submission of the form, a click on the list of
  workouts, and the storing and loading of the workouts in \<open>localStorage\<close>. A handler is
  a function from the state of the session to its completion, normal or by an exception,
  and the state it leaves.
\<close>

section \<open>JavaScript numbers\<close>

text \<open>
  A JavaScript Number is an IEEE 754 binary64 value. The finite ones are carried by the
  rational they denote, so that every operation below is exact arithmetic followed by the
  rounding the language prescribes (to nearest, ties to even, 53 significant bits, least
  exponent \<open>-1074\<close>, overflow to an infinity from \<open>2^1024 - 2^970\<close> on).

  The two zeros of a double are the one value \<open>Fin 0\<close>: the comparison \<open>> 0\<close>,
  \<open>Number.isFinite\<close>, \<open>toFixed\<close> and \<open>JSON.stringify\<close> give the same result on
  both, and script.js divides only by a divisor it has checked to be positive, or by 60.
  So an elevation gain of \<open>-0\<close> is the elevation gain 0 here, before and after it is stored.
\<close>

datatype number = Fin rat | PInf | NInf | NaN

definition ilog2 :: "rat \<Rightarrow> int" where
  \<comment> \<open>\<open>\<lfloor>log\<^sub>2 q\<rfloor>\<close> for \<open>q > 0\<close>, from the bit lengths of numerator and denominator\<close>
  "ilog2 q = (let a = fst (quotient_of q); b = snd (quotient_of q); e = bitlen a - bitlen b
              in if 2 powi e \<le> q then e else e - 1)"

definition rne :: "rat \<Rightarrow> int" where
  \<comment> \<open>the nearest integer, a tie going to the even one\<close>
  "rne y = (let f = \<lfloor>y\<rfloor>; r = y - of_int f
            in if r < 1 / 2 then f else if 1 / 2 < r then f + 1
               else if even f then f else f + 1)"

definition round_pos :: "rat \<Rightarrow> number" where
  \<comment> \<open>the double nearest to \<open>q > 0\<close>\<close>
  "round_pos q =
     (if 2 ^ 1024 - 2 ^ 970 \<le> q then PInf
      else let e = max (ilog2 q - 52) (- 1074)
           in Fin (of_int (rne (q / 2 powi e)) * 2 powi e))"

fun negate :: "number \<Rightarrow> number" where
  "negate (Fin q) = Fin (- q)"
| "negate PInf = NInf"
| "negate NInf = PInf"
| "negate NaN = NaN"

definition to_double :: "rat \<Rightarrow> number" where
  \<comment> \<open>the Number value of a real: what a numeric literal and every arithmetic result is\<close>
  "to_double q =
     (if q = 0 then Fin 0 else if 0 < q then round_pos q else negate (round_pos (- q)))"

fun js_div :: "number \<Rightarrow> number \<Rightarrow> number" where
  "js_div NaN y = NaN"
| "js_div x NaN = NaN"
| "js_div (Fin a) (Fin b) =
     (if b = 0 then (if a = 0 then NaN else if 0 < a then PInf else NInf)
      else to_double (a / b))"
| "js_div (Fin a) y = Fin 0"
| "js_div x (Fin b) = (if (x = PInf) = (0 \<le> b) then PInf else NInf)"
| "js_div x y = NaN"

fun js_add :: "number \<Rightarrow> number \<Rightarrow> number" where
  "js_add NaN y = NaN"
| "js_add x NaN = NaN"
| "js_add (Fin a) (Fin b) = to_double (a + b)"
| "js_add (Fin a) y = y"
| "js_add x (Fin b) = x"
| "js_add x y = (if x = y then x else NaN)"

fun js_gt :: "number \<Rightarrow> number \<Rightarrow> bool" where
  \<comment> \<open>\<open>x > y\<close>\<close>
  "js_gt NaN y = False"
| "js_gt x NaN = False"
| "js_gt (Fin a) (Fin b) = (b < a)"
| "js_gt x NInf = (x \<noteq> NInf)"
| "js_gt PInf y = (y \<noteq> PInf)"
| "js_gt x y = False"

fun isFinite :: "number \<Rightarrow> bool" where
  \<comment> \<open>\<open>Number.isFinite\<close>, on a value that is a Number\<close>
  "isFinite (Fin q) = True"
| "isFinite x = False"

section \<open>Numbers as strings\<close>

definition digit :: "int \<Rightarrow> char" where
  "digit d = ''0123456789'' ! nat d"

function show_int :: "int \<Rightarrow> string" where
  \<comment> \<open>the decimal digits of an integer \<open>n \<ge> 0\<close>\<close>
  "show_int n = (if n < 10 then [digit n] else show_int (n div 10) @ [digit (n mod 10)])"
  by pat_completeness auto
termination
  by (relation "measure nat") auto

declare show_int.simps [simp del]

definition sci_candidates :: "rat \<Rightarrow> nat \<Rightarrow> (int \<times> nat) list" where
  \<comment> \<open>the pairs \<open>(s, n)\<close> with \<open>k\<close> digits in \<open>s\<close> whose value \<open>s \<times> 10\<^sup>n\<^sup>-\<^sup>k\<close> reads back as \<open>y\<close>\<close>
  "sci_candidates y k =
     (let nd = length (show_int \<lfloor>y\<rfloor>)
      in [(s, n). n \<leftarrow> [nd, nd + 1],
                  s \<leftarrow> [\<lfloor>y / 10 ^ (n - k)\<rfloor>, \<lfloor>y / 10 ^ (n - k)\<rfloor> + 1],
                  10 ^ (k - 1) \<le> s \<and> s < 10 ^ k \<and> to_double (of_int s * 10 ^ (n - k)) = Fin y])"

definition sci_better :: "rat \<Rightarrow> nat \<Rightarrow> int \<times> nat \<Rightarrow> int \<times> nat \<Rightarrow> int \<times> nat" where
  \<comment> \<open>of two candidates the one closer to \<open>y\<close>, the even \<open>s\<close> when they are as close\<close>
  "sci_better y k c c' =
     (let d = \<bar>of_int (fst c) * 10 ^ (snd c - k) - y\<bar>;
          d' = \<bar>of_int (fst c') * 10 ^ (snd c' - k) - y\<bar>
      in if d' < d \<or> (d' = d \<and> even (fst c')) then c' else c)"

fun sci_search :: "rat \<Rightarrow> nat list \<Rightarrow> nat \<times> int \<times> nat" where
  \<comment> \<open>\<open>(k, s, n)\<close> for the least \<open>k\<close> that has a candidate\<close>
  "sci_search y [] = (1, 0, 1)"
| "sci_search y (k # ks) =
     (case sci_candidates y k of
        [] \<Rightarrow> sci_search y ks
      | c # cs \<Rightarrow> (k, foldl (sci_better y k) c cs))"

definition to_string_large :: "rat \<Rightarrow> string" where
  \<comment> \<open>\<open>Number::toString\<close> of a double \<open>y \<ge> 10\<^sup>2\<^sup>1\<close>: the shortest digits that read back as
      \<open>y\<close>, in exponent notation\<close>
  "to_string_large y =
     (case sci_search y [1 ..< 18] of
        (k, s, n) \<Rightarrow>
          (let ds = show_int s
           in (if k = 1 then ds else take 1 ds @ ''.'' @ drop 1 ds)
              @ ''e+'' @ show_int (int n - 1)))"

definition toFixed :: "nat \<Rightarrow> number \<Rightarrow> string" where
  \<comment> \<open>\<open>Number.prototype.toFixed(f)\<close> for \<open>0 \<le> f \<le> 100\<close>; script.js passes 1\<close>
  "toFixed f x =
     (case x of
        NaN \<Rightarrow> ''NaN''
      | PInf \<Rightarrow> ''Infinity''
      | NInf \<Rightarrow> ''-Infinity''
      | Fin q \<Rightarrow>
          (let s = (if q < 0 then ''-'' else ''''); y = \<bar>q\<bar>
           in if 10 ^ 21 \<le> y then s @ to_string_large y
              else let n = \<lfloor>y * 10 ^ f + 1 / 2\<rfloor>;
                       m = show_int n;
                       m = (if f \<noteq> 0 \<and> length m \<le> f
                            then replicate (f + 1 - length m) (CHR ''0'') @ m else m)
                   in if f = 0 then s @ m
                      else s @ take (length m - f) m @ ''.'' @ drop (length m - f) m))"

section \<open>Workout, Running and Cycling\<close>

text \<open>
  What a \<open>Date\<close> object answers to the three methods called on it: \<open>getMonth()\<close>
  (0 to 11), \<open>getDate()\<close> (1 to 31) and, through \<open>JSON.stringify\<close>, \<open>toISOString()\<close>.
\<close>

record date_obj =
  getMonth :: nat
  getDate :: nat
  toISOString :: string

text \<open>
  What the environment hands to one constructor call: \<open>new Date()\<close>, \<open>Date.now()\<close> and
  \<open>Math.trunc(Math.random() * 100_000)\<close>, an integer from 0 to 99999. \<open>Date.now()\<close> is
  at most \<open>8.64 \<times> 10\<^sup>1\<^sup>5\<close>, so the sum of the two is exact and prints as plain digits.
\<close>

record env =
  today :: date_obj
  now :: int
  random :: int

record workout =
  date :: date_obj
  ident :: string  \<comment> \<open>the field \<open>id\<close>\<close>
  clicks :: number
  coords :: "number \<times> number"  \<comment> \<open>\<open>[lat, lng]\<close>\<close>
  distance :: number  \<comment> \<open>in km\<close>
  duration :: number  \<comment> \<open>in min\<close>

record running = workout +
  cadence :: number
  pace :: string
  description :: string

record cycling = workout +
  elevationGain :: number
  speed :: string
  cdescription :: string  \<comment> \<open>the field \<open>description\<close> of a Cycling\<close>

definition new_id :: "env \<Rightarrow> string" where
  \<comment> \<open>\<open>(Date.now() + Math.trunc(Math.random() * 100_000) + "").slice(-10)\<close>\<close>
  "new_id e = (let s = show_int (now e + random e) in drop (length s - 10) s)"

definition Workout :: "env \<Rightarrow> number \<times> number \<Rightarrow> number \<Rightarrow> number \<Rightarrow> workout" where
  "Workout e c d t =
     \<lparr>date = today e, ident = new_id e, clicks = Fin 0, coords = c, distance = d, duration = t\<rparr>"

definition months :: "string list" where
  "months = [''January'', ''February'', ''March'', ''April'', ''May'', ''June'', ''July'',
             ''August'', ''September'', ''October'', ''November'', ''December'']"

definition toUpperCase :: "string \<Rightarrow> string" where
  \<comment> \<open>on the letters a to z\<close>
  "toUpperCase s =
     map (\<lambda>c. case map_of (zip ''abcdefghijklmnopqrstuvwxyz'' ''ABCDEFGHIJKLMNOPQRSTUVWXYZ'') c of
                 Some u \<Rightarrow> u | None \<Rightarrow> c) s"

definition setDescription :: "string \<Rightarrow> 'a workout_scheme \<Rightarrow> string" where
  \<comment> \<open>the value \<open>_setDescription\<close> stores, for \<open>this.type\<close> one of the two class constants;
      an index beyond the array reads \<open>undefined\<close>\<close>
  "setDescription type w =
     toUpperCase (take 1 type) @ drop 1 type @ '' on ''
     @ (if getMonth (date w) < length months then months ! getMonth (date w) else ''undefined'')
     @ '' '' @ show_int (int (getDate (date w)))"

definition click :: "'a workout_scheme \<Rightarrow> 'a workout_scheme" where
  \<comment> \<open>\<open>this.clicks++\<close>\<close>
  "click w = w\<lparr>clicks := js_add (clicks w) (Fin 1)\<rparr>"

definition calcPace :: "'a workout_scheme \<Rightarrow> string" where
  \<comment> \<open>min/km: the value stored in \<open>this.pace\<close>\<close>
  "calcPace w = toFixed 1 (js_div (duration w) (distance w))"

definition calcSpeed :: "'a workout_scheme \<Rightarrow> string" where
  \<comment> \<open>km/h: the value stored in \<open>this.speed\<close>\<close>
  "calcSpeed w = toFixed 1 (js_div (distance w) (js_div (duration w) (Fin 60)))"

definition Running :: "env \<Rightarrow> number \<times> number \<Rightarrow> number \<Rightarrow> number \<Rightarrow> number \<Rightarrow> running" where
  "Running e c d t cad =
     (let w = Workout e c d t
      in \<lparr>date = date w, ident = ident w, clicks = clicks w, coords = coords w,
          distance = distance w, duration = duration w,
          cadence = cad, pace = calcPace w, description = setDescription ''running'' w\<rparr>)"

definition Cycling :: "env \<Rightarrow> number \<times> number \<Rightarrow> number \<Rightarrow> number \<Rightarrow> number \<Rightarrow> cycling" where
  "Cycling e c d t el =
     (let w = Workout e c d t
      in \<lparr>date = date w, ident = ident w, clicks = clicks w, coords = coords w,
          distance = distance w, duration = duration w,
          elevationGain = el, speed = calcSpeed w, cdescription = setDescription ''cycling'' w\<rparr>)"

section \<open>Values and JSON\<close>

text \<open>
  The values the \<open>#workouts\<close> array can hold: instances of the two classes, \<open>undefined\<close>,
  and what \<open>JSON.parse\<close> builds (null, booleans, numbers, strings, arrays and plain
  objects, a plain object being its properties in order).
\<close>

datatype jsval =
    Undefined
  | Null
  | Bool bool
  | Num number
  | Str string
  | DateObj date_obj
  | Arr "jsval list"
  | Obj "(string \<times> jsval) list"
  | RunningObj running
  | CyclingObj cycling

fun own_props :: "jsval \<Rightarrow> (string \<times> jsval) list" where
  \<comment> \<open>the own data properties, in the order the constructors create them\<close>
  "own_props (RunningObj r) =
     [(''date'', DateObj (date r)), (''id'', Str (ident r)), (''clicks'', Num (clicks r)),
      (''coords'', Arr [Num (fst (coords r)), Num (snd (coords r))]),
      (''distance'', Num (distance r)), (''duration'', Num (duration r)),
      (''type'', Str ''running''), (''isRunning'', Bool True),
      (''cadence'', Num (cadence r)), (''pace'', Str (pace r)),
      (''description'', Str (description r))]"
| "own_props (CyclingObj c) =
     [(''date'', DateObj (date c)), (''id'', Str (ident c)), (''clicks'', Num (clicks c)),
      (''coords'', Arr [Num (fst (coords c)), Num (snd (coords c))]),
      (''distance'', Num (distance c)), (''duration'', Num (duration c)),
      (''type'', Str ''cycling''), (''isRunning'', Bool False),
      (''elevationGain'', Num (elevationGain c)), (''speed'', Str (speed c)),
      (''description'', Str (cdescription c))]"
| "own_props (Obj ps) = ps"
| "own_props v = []"

fun nullish :: "jsval \<Rightarrow> bool" where
  \<comment> \<open>reading a property of these throws a TypeError\<close>
  "nullish Undefined = True"
| "nullish Null = True"
| "nullish v = False"

definition get :: "jsval \<Rightarrow> string \<Rightarrow> jsval" where
  \<comment> \<open>\<open>v.k\<close> for a value that is not nullish and a name \<open>k\<close> that script.js reads (none of
      them is inherited from a built-in prototype); an absent property reads \<open>undefined\<close>\<close>
  "get v k = (case map_of (own_props v) k of Some x \<Rightarrow> x | None \<Rightarrow> Undefined)"

fun truthy :: "jsval \<Rightarrow> bool" where
  "truthy Undefined = False"
| "truthy Null = False"
| "truthy (Bool b) = b"
| "truthy (Num n) = (n \<noteq> NaN \<and> n \<noteq> Fin 0)"
| "truthy (Str s) = (s \<noteq> [])"
| "truthy v = True"

text \<open>
  JSON texts are taken by the value they denote: \<open>JSON.stringify\<close> writes each finite
  number with digits that read back as the same double and quotes each string so that it
  reads back unchanged, and \<open>JSON.parse\<close> keeps the order of the properties.
\<close>

datatype json =
    JNull
  | JBool bool
  | JNum rat
  | JStr string
  | JArr "json list"
  | JObj "(string \<times> json) list"

fun num_json :: "number \<Rightarrow> json" where
  "num_json (Fin q) = JNum q"
| "num_json x = JNull"

fun to_json :: "jsval \<Rightarrow> json option"
  and to_json_elems :: "jsval list \<Rightarrow> json list"
  and to_json_props :: "(string \<times> jsval) list \<Rightarrow> (string \<times> json) list" where
  \<comment> \<open>\<open>JSON.stringify\<close>: \<open>None\<close> is the result \<open>undefined\<close>, which an array writes as
      \<open>null\<close> and an object leaves out\<close>
  "to_json Undefined = None"
| "to_json Null = Some JNull"
| "to_json (Bool b) = Some (JBool b)"
| "to_json (Num n) = Some (num_json n)"
| "to_json (Str s) = Some (JStr s)"
| "to_json (DateObj d) = Some (JStr (toISOString d))"
| "to_json (Arr vs) = Some (JArr (to_json_elems vs))"
| "to_json (Obj ps) = Some (JObj (to_json_props ps))"
| "to_json (RunningObj r) =
     Some (JObj
       [(''date'', JStr (toISOString (date r))), (''id'', JStr (ident r)),
        (''clicks'', num_json (clicks r)),
        (''coords'', JArr [num_json (fst (coords r)), num_json (snd (coords r))]),
        (''distance'', num_json (distance r)), (''duration'', num_json (duration r)),
        (''type'', JStr ''running''), (''isRunning'', JBool True),
        (''cadence'', num_json (cadence r)), (''pace'', JStr (pace r)),
        (''description'', JStr (description r))])"
| "to_json (CyclingObj c) =
     Some (JObj
       [(''date'', JStr (toISOString (date c))), (''id'', JStr (ident c)),
        (''clicks'', num_json (clicks c)),
        (''coords'', JArr [num_json (fst (coords c)), num_json (snd (coords c))]),
        (''distance'', num_json (distance c)), (''duration'', num_json (duration c)),
        (''type'', JStr ''cycling''), (''isRunning'', JBool False),
        (''elevationGain'', num_json (elevationGain c)), (''speed'', JStr (speed c)),
        (''description'', JStr (cdescription c))])"
| "to_json_elems [] = []"
| "to_json_elems (v # vs) =
     (case to_json v of None \<Rightarrow> JNull | Some j \<Rightarrow> j) # to_json_elems vs"
| "to_json_props [] = []"
| "to_json_props ((k, v) # ps) =
     (case to_json v of None \<Rightarrow> to_json_props ps | Some j \<Rightarrow> (k, j) # to_json_props ps)"

fun of_json :: "json \<Rightarrow> jsval"
  and of_json_elems :: "json list \<Rightarrow> jsval list"
  and of_json_props :: "(string \<times> json) list \<Rightarrow> (string \<times> jsval) list" where
  \<comment> \<open>\<open>JSON.parse\<close>\<close>
  "of_json JNull = Null"
| "of_json (JBool b) = Bool b"
| "of_json (JNum q) = Num (Fin q)"
| "of_json (JStr s) = Str s"
| "of_json (JArr js) = Arr (of_json_elems js)"
| "of_json (JObj ps) = Obj (of_json_props ps)"
| "of_json_elems [] = []"
| "of_json_elems (j # js) = of_json j # of_json_elems js"
| "of_json_props [] = []"
| "of_json_props ((k, j) # ps) = (k, of_json j) # of_json_props ps"

section \<open>App\<close>

text \<open>
  The page and the Leaflet map are kept as far as script.js writes to them: a list entry
  is the values its template interpolates, a marker the values it is built from, and
  Leaflet takes the coordinates it is given. The \<open>workouts\<close> item of \<open>localStorage\<close> is
  absent or the JSON array that \<open>_setLocalStorage\<close> wrote, nothing else writes it. The
  values of the form are the numbers that the unary plus makes of the text of its inputs.
\<close>

record entry =
  entry_type :: jsval  \<comment> \<open>\<open>workout--${workout.type}\<close>\<close>
  data_id :: jsval
  title :: jsval  \<comment> \<open>\<open>workout.description\<close>\<close>
  runner_icon :: bool  \<comment> \<open>whether \<open>workout.isRunning\<close> is truthy\<close>
  shown_distance :: jsval
  shown_duration :: jsval
  shown_metric :: jsval  \<comment> \<open>\<open>workout.pace\<close> or \<open>workout.speed\<close>\<close>
  shown_extra :: jsval  \<comment> \<open>\<open>workout.cadence\<close> or \<open>workout.elevationGain\<close>\<close>

record marker =
  latlng :: jsval
  className :: jsval  \<comment> \<open>\<open>${workout.type}-popup\<close>\<close>
  popup_icon :: bool
  popup_text :: jsval

record leaflet =
  center :: jsval
  zoom :: nat
  markers :: "marker list"

record form =
  inputType :: string
  inputDistance :: number  \<comment> \<open>\<open>+inputDistance.value\<close>\<close>
  inputDuration :: number
  inputCadence :: number
  inputElevation :: number

record app =
  workouts :: "jsval list"  \<comment> \<open>\<open>#workouts\<close>\<close>
  lmap :: "leaflet option"  \<comment> \<open>\<open>#map\<close>, \<open>None\<close> while undefined\<close>
  mapEvnt :: "(number \<times> number) option"  \<comment> \<open>\<open>#mapEvnt.latlng\<close>, \<open>None\<close> while undefined\<close>
  storage :: "json list option"  \<comment> \<open>\<open>localStorage\<close>, item \<open>workouts\<close>\<close>
  entries :: "entry list"  \<comment> \<open>the \<open>li\<close> elements after the form, first to last\<close>
  form_hidden :: bool
  alerts :: "string list"

definition mapZoomLevel :: nat where
  "mapZoomLevel = 13"

datatype error = TypeError

datatype completion = Returned | Threw error

type_synonym handler = "app \<Rightarrow> completion \<times> app"

definition and_then :: "completion \<times> app \<Rightarrow> handler \<Rightarrow> completion \<times> app" where
  \<comment> \<open>the next statement runs unless the one before threw\<close>
  "and_then r f = (case r of (Returned, s) \<Rightarrow> f s | (Threw e, s) \<Rightarrow> (Threw e, s))"

fun forEach :: "('a \<Rightarrow> handler) \<Rightarrow> 'a list \<Rightarrow> handler" where
  "forEach f [] s = (Returned, s)"
| "forEach f (x # xs) s = and_then (f x s) (forEach f xs)"

definition alert :: "string \<Rightarrow> app \<Rightarrow> app" where
  "alert msg s = s\<lparr>alerts := alerts s @ [msg]\<rparr>"

definition hideForm :: handler where
  \<comment> \<open>the four inputs are emptied and the form hidden\<close>
  "hideForm s = (Returned, s\<lparr>form_hidden := True\<rparr>)"

definition renderWorkout :: "jsval \<Rightarrow> handler" where
  "renderWorkout w s =
     (if nullish w then (Threw TypeError, s)
      else (Returned,
        s\<lparr>entries :=
           \<lparr>entry_type = get w ''type'', data_id = get w ''id'', title = get w ''description'',
            runner_icon = truthy (get w ''isRunning''),
            shown_distance = get w ''distance'', shown_duration = get w ''duration'',
            shown_metric = (if truthy (get w ''isRunning'') then get w ''pace''
                            else get w ''speed''),
            shown_extra = (if truthy (get w ''isRunning'') then get w ''cadence''
                           else get w ''elevationGain'')\<rparr>
           # entries s\<rparr>))"

definition renderWorkoutMarker :: "jsval \<Rightarrow> handler" where
  \<comment> \<open>\<open>addTo\<close> calls a method of the map, so it throws while \<open>#map\<close> is undefined\<close>
  "renderWorkoutMarker w s =
     (if nullish w then (Threw TypeError, s)
      else case lmap s of
        None \<Rightarrow> (Threw TypeError, s)
      | Some m \<Rightarrow>
          (Returned,
           s\<lparr>lmap := Some (m\<lparr>markers := markers m @
                  [\<lparr>latlng = get w ''coords'', className = get w ''type'',
                    popup_icon = truthy (get w ''isRunning''),
                    popup_text = get w ''description''\<rparr>],
                center := get w ''coords'', zoom := mapZoomLevel\<rparr>)\<rparr>))"

definition setLocalStorage :: handler where
  "setLocalStorage s = (Returned, s\<lparr>storage := Some (to_json_elems (workouts s))\<rparr>)"

definition getLocalStorage :: handler where
  "getLocalStorage s =
     (case storage s of
        None \<Rightarrow> (Returned, s)
      | Some js \<Rightarrow>
          (let data = of_json_elems js
           in forEach renderWorkout data (s\<lparr>workouts := data\<rparr>)))"

fun find_index :: "jsval list \<Rightarrow> string \<Rightarrow> error + nat option" where
  \<comment> \<open>\<open>#workouts.find((workout) => workout.id === id)\<close>, by the position of the result\<close>
  "find_index [] i = Inr None"
| "find_index (w # ws) i =
     (if nullish w then Inl TypeError
      else if get w ''id'' = Str i then Inr (Some 0)
      else case find_index ws i of
             Inl e \<Rightarrow> Inl e
           | Inr None \<Rightarrow> Inr None
           | Inr (Some n) \<Rightarrow> Inr (Some (Suc n)))"

fun call_click :: "jsval \<Rightarrow> error + jsval" where
  \<comment> \<open>\<open>workout.click()\<close>: only the two classes inherit the method\<close>
  "call_click (RunningObj r) = Inr (RunningObj (click r))"
| "call_click (CyclingObj c) = Inr (CyclingObj (click c))"
| "call_click v = Inl TypeError"

definition moveToPopup :: "string option \<Rightarrow> handler" where
  \<comment> \<open>the argument is \<open>dataset.id\<close> of the closest \<open>.workout\<close> element of the click\<close>
  "moveToPopup target s =
     (case target of
        None \<Rightarrow> (Returned, s)
      | Some i \<Rightarrow>
          (case find_index (workouts s) i of
             Inl e \<Rightarrow> (Threw e, s)
           | Inr found \<Rightarrow>
               (case lmap s of
                  None \<Rightarrow> (Threw TypeError, s)
                | Some m \<Rightarrow>
                    (case found of
                       None \<Rightarrow> (Threw TypeError, s)
                     | Some n \<Rightarrow>
                         (let s1 = s\<lparr>lmap := Some (m\<lparr>center := get (workouts s ! n) ''coords'',
                                                        zoom := mapZoomLevel\<rparr>)\<rparr>
                          in case call_click (workouts s ! n) of
                               Inl e \<Rightarrow> (Threw e, s1)
                             | Inr w \<Rightarrow> (Returned, s1\<lparr>workouts := (workouts s)[n := w]\<rparr>))))))"

definition validInputs :: "number list \<Rightarrow> bool" where
  "validInputs inputs = list_all isFinite inputs"

definition allPositive :: "number list \<Rightarrow> bool" where
  "allPositive inputs = list_all (\<lambda>i. js_gt i (Fin 0)) inputs"

definition newWorkout :: "env \<Rightarrow> form \<Rightarrow> handler" where
  \<comment> \<open>\<open>_newWorkout\<close>, for the clock and random number \<open>e\<close> and the form's values \<open>f\<close>\<close>
  "newWorkout e f s =
     (let type = inputType f; d = inputDistance f; t = inputDuration f
      in case mapEvnt s of
           None \<Rightarrow> (Threw TypeError, s)
         | Some c \<Rightarrow>
             if type = ''running'' \<and>
                (\<not> validInputs [d, t, inputCadence f] \<or> \<not> allPositive [d, t, inputCadence f])
             then (Returned, alert ''Inputs have to be positive numbers'' s)
             else if type = ''cycling'' \<and>
                (\<not> validInputs [d, t, inputElevation f] \<or> \<not> allPositive [d, t])
             then (Returned, alert ''Inputs have to be positive numbers'' s)
             else
               (let w = (if type = ''running''
                         then RunningObj (Running e c d t (inputCadence f))
                         else if type = ''cycling''
                         then CyclingObj (Cycling e c d t (inputElevation f))
                         else Undefined)
                in and_then (and_then (and_then
                     (renderWorkout w (s\<lparr>workouts := workouts s @ [w]\<rparr>))
                     (renderWorkoutMarker w)) hideForm) setLocalStorage))"

definition loadMap :: "number \<times> number \<Rightarrow> handler" where
  \<comment> \<open>\<open>_loadMap\<close>, for the latitude and longitude of the position\<close>
  "loadMap position s =
     forEach renderWorkoutMarker (workouts s)
       (s\<lparr>lmap := Some \<lparr>center = Arr [Num (fst position), Num (snd position)],
                         zoom = mapZoomLevel, markers = []\<rparr>\<rparr>)"

definition showForm :: "number \<times> number \<Rightarrow> handler" where
  \<comment> \<open>\<open>_showForm\<close>, for \<open>mapEvent.latlng\<close>\<close>
  "showForm c s = (Returned, s\<lparr>mapEvnt := Some c, form_hidden := False\<rparr>)"

definition App :: "json list option \<Rightarrow> completion \<times> app" where
  \<comment> \<open>the constructor, on a page whose form is hidden, for the stored item: the position
      is only asked for, \<open>_loadMap\<close> runs when it arrives\<close>
  "App st =
     getLocalStorage \<lparr>workouts = [], lmap = None, mapEvnt = None, storage = st,
                      entries = [], form_hidden = True, alerts = []\<rparr>"

section \<open>The vocabulary of the specification\<close>

text \<open>
  A string is a number rounded to one decimal place when it is digits, a point and one
  digit; \<open>one_decimal\<close> reads the number such a string denotes. \<open>decimal1 n\<close> writes
  \<open>n / 10\<close> in that form.
\<close>

definition decimal1 :: "int \<Rightarrow> string" where
  "decimal1 n = show_int (n div 10) @ ''.'' @ [digit (n mod 10)]"

definition digit_value :: "char \<Rightarrow> int option" where
  "digit_value c = map_of (zip ''0123456789'' [0, 1, 2, 3, 4, 5, 6, 7, 8, 9]) c"

fun digits_value :: "int \<Rightarrow> string \<Rightarrow> int option" where
  "digits_value a [] = Some a"
| "digits_value a (c # cs) =
     (case digit_value c of None \<Rightarrow> None | Some d \<Rightarrow> digits_value (10 * a + d) cs)"

definition one_decimal :: "string \<Rightarrow> rat option" where
  "one_decimal s =
     (let a = takeWhile (\<lambda>c. c \<noteq> CHR ''.'') s; b = drop (length a + 1) s
      in if a \<noteq> [] \<and> length s = length a + 2
         then (case (digits_value 0 a, digits_value 0 b) of
                 (Some i, Some f) \<Rightarrow> Some (of_int i + of_int f / 10)
               | _ \<Rightarrow> None)
         else None)"

text \<open>
  A workout record of the store is an instance of one of the two classes whose numeric
  fields are finite, as \<open>_newWorkout\<close> builds them, or a plain object of JSON data, as
  \<open>_getLocalStorage\<close> loads them.
\<close>

fun plain :: "jsval \<Rightarrow> bool"
  and plain_elems :: "jsval list \<Rightarrow> bool"
  and plain_props :: "(string \<times> jsval) list \<Rightarrow> bool" where
  "plain Null = True"
| "plain (Bool b) = True"
| "plain (Num n) = isFinite n"
| "plain (Str s) = True"
| "plain (Arr vs) = plain_elems vs"
| "plain (Obj ps) = plain_props ps"
| "plain v = False"
| "plain_elems [] = True"
| "plain_elems (v # vs) = (plain v \<and> plain_elems vs)"
| "plain_props [] = True"
| "plain_props ((k, v) # ps) = (plain v \<and> plain_props ps)"

fun workout_record :: "jsval \<Rightarrow> bool" where
  "workout_record (RunningObj r) =
     list_all isFinite
       [clicks r, fst (coords r), snd (coords r), distance r, duration r, cadence r]"
| "workout_record (CyclingObj c) =
     list_all isFinite
       [clicks c, fst (coords c), snd (coords c), distance c, duration c, elevationGain c]"
| "workout_record (Obj ps) = plain_props ps"
| "workout_record v = False"

section \<open>Sample values\<close>

definition noon :: env where
  "noon = \<lparr>today = \<lparr>getMonth = 10, getDate = 3, toISOString = ''2026-11-03T12:00:00.000Z''\<rparr>,
           now = 1793707200000, random = 4711\<rparr>"

definition later :: env where
  "later = \<lparr>today = \<lparr>getMonth = 10, getDate = 3, toISOString = ''2026-11-03T12:00:04.000Z''\<rparr>,
            now = 1793707204000, random = 711\<rparr>"

definition lisbon :: "number \<times> number" where
  "lisbon = (to_double (387 / 10), to_double (- 91 / 10))"

definition ready :: app where
  \<comment> \<open>a first session: nothing stored, the map loaded, the form opened by a click\<close>
  "ready = snd (showForm lisbon (snd (loadMap lisbon (snd (App None)))))"

text \<open>
  Four submissions of the form, and the session after the first run and a second click
  on the map.
\<close>

definition walk :: form where
  "walk = \<lparr>inputType = ''walking'', inputDistance = Fin (- 1), inputDuration = NaN,
           inputCadence = Fin 0, inputElevation = Fin 0\<rparr>"

definition run :: form where
  "run = \<lparr>inputType = ''running'', inputDistance = to_double (52 / 10), inputDuration = Fin 24,
          inputCadence = Fin 178, inputElevation = Fin 0\<rparr>"

definition ride :: form where
  "ride = \<lparr>inputType = ''cycling'', inputDistance = Fin 20, inputDuration = Fin 60,
           inputCadence = Fin 0, inputElevation = Fin (- 12)\<rparr>"

definition swim :: form where
  "swim = \<lparr>inputType = ''swimming'', inputDistance = Fin (3 / 2), inputDuration = Fin 30,
           inputCadence = Fin 0, inputElevation = Fin 0\<rparr>"

definition again :: app where
  "again = snd (showForm lisbon (snd (newWorkout noon run ready)))"

text \<open>
  A ride in the evening, and the session that follows the first run when the page is
  opened again.
\<close>

definition evening :: env where
  "evening = \<lparr>today = \<lparr>getMonth = 10, getDate = 3, toISOString = ''2026-11-03T18:30:00.000Z''\<rparr>,
              now = 1793730600000, random = 52\<rparr>"

definition two :: app where
  "two = snd (newWorkout evening ride again)"

definition reloaded :: app where
  \<comment> \<open>the next session: the stored item of the first loaded, then the map\<close>
  "reloaded = snd (loadMap lisbon (snd (App (storage again))))"

text \<open>
  The first session before any click on the map, and a session in which a swim and then
  a run were submitted.
\<close>

definition opened :: app where
  \<comment> \<open>a first session with the map loaded and no click on it yet\<close>
  "opened = snd (loadMap lisbon (snd (App None)))"

definition mixed :: app where
  \<comment> \<open>a swim submitted, then a run, the form still open\<close>
  "mixed = snd (newWorkout evening run (snd (newWorkout noon swim ready)))"

section \<open>Rounding to a double\<close>

lemma bitlen_powi:
  fixes a :: int
  assumes "0 < a"
  shows "2 powi (bitlen a - 1) \<le> (of_int a :: rat)" and "(of_int a :: rat) < 2 powi (bitlen a)"
proof -
  from assms have b1: "1 \<le> bitlen a" by (simp add: bitlen_alt_def)
  from bitlen_bounds[OF assms]
  have lo: "2 ^ nat (bitlen a - 1) \<le> a" and hi: "a < 2 ^ nat (bitlen a)"
    by auto
  have "(of_int (2 ^ nat (bitlen a - 1)) :: rat) \<le> of_int a"
    using lo by (simp only: of_int_le_iff)
  then show "2 powi (bitlen a - 1) \<le> (of_int a :: rat)"
    using b1 by (simp add: power_int_nonneg_exp)
  have "(of_int a :: rat) < of_int (2 ^ nat (bitlen a))"
    using hi by (simp only: of_int_less_iff)
  then show "(of_int a :: rat) < 2 powi (bitlen a)"
    using b1 by (simp add: power_int_nonneg_exp)
qed

lemma ilog2_bounds:
  assumes "0 < q"
  shows "2 powi (ilog2 q) \<le> q \<and> q < 2 powi (ilog2 q + 1)"
proof -
  obtain a b where ab: "quotient_of q = (a, b)" by (cases "quotient_of q")
  then have bpos: "0 < b" and q: "q = of_int a / of_int b"
    using quotient_of_denom_pos quotient_of_div by blast+
  with assms have apos: "0 < a"
    by (simp add: zero_less_divide_iff)
  define e where "e = bitlen a - bitlen b"
  have B: "(0::rat) < of_int b" using bpos by simp
  have lo: "2 powi (e - 1) \<le> q"
  proof -
    have "2 powi (e - 1) = (2 powi (bitlen a - 1) :: rat) / 2 powi (bitlen b)"
      unfolding e_def by (simp add: power_int_diff)
    also have "\<dots> \<le> of_int a / 2 powi (bitlen b)"
      using bitlen_powi(1)[OF apos] by (simp add: divide_right_mono)
    also have "\<dots> \<le> of_int a / of_int b"
      using bitlen_powi(2)[OF bpos] apos B by (simp add: frac_le)
    finally show ?thesis using q by simp
  qed
  have hi: "q < 2 powi (e + 1)"
  proof -
    have "q = of_int a / of_int b" by (rule q)
    also have "\<dots> < 2 powi (bitlen a) / of_int b"
      using bitlen_powi(2)[OF apos] B by (simp add: divide_strict_right_mono)
    also have "\<dots> \<le> 2 powi (bitlen a) / 2 powi (bitlen b - 1)"
      using bitlen_powi(1)[OF bpos] by (simp add: frac_le)
    also have "\<dots> = 2 powi (e + 1)"
      unfolding e_def by (simp add: power_int_diff power_int_add)
    finally show ?thesis .
  qed
  have il: "ilog2 q = (if 2 powi e \<le> q then e else e - 1)"
    by (simp add: ilog2_def ab e_def Let_def)
  show ?thesis
  proof (cases "2 powi e \<le> q")
    case True
    with il hi show ?thesis by simp
  next
    case False
    with il lo show ?thesis by simp
  qed
qed

lemma powi2_less_D: "(2::rat) powi m < 2 powi n \<Longrightarrow> m < n"
proof (rule ccontr)
  assume a: "2 powi m < (2::rat) powi n" and "\<not> m < n"
  then have "n \<le> m" by simp
  then have "(2::rat) powi n \<le> 2 powi m" by (intro power_int_increasing) auto
  with a show False by simp
qed

lemma ilog2_unique:
  assumes "2 powi k \<le> q" "q < 2 powi (k + 1)"
  shows "ilog2 q = k"
proof -
  have qpos: "0 < q"
    using assms(1) by (rule less_le_trans[rotated]) simp
  from ilog2_bounds[OF qpos] have lo: "2 powi (ilog2 q) \<le> q" and hi: "q < 2 powi (ilog2 q + 1)"
    by auto
  have "(2::rat) powi k < 2 powi (ilog2 q + 1)" using assms(1) hi by simp
  then have "k < ilog2 q + 1" by (rule powi2_less_D)
  moreover have "(2::rat) powi (ilog2 q) < 2 powi (k + 1)" using lo assms(2) by simp
  then have "ilog2 q < k + 1" by (rule powi2_less_D)
  ultimately show ?thesis by simp
qed

lemma rne_close: "\<bar>of_int (rne y) - y\<bar> \<le> 1 / 2"
  unfolding rne_def Let_def by (auto simp: abs_if) linarith+

lemma rne_of_int [simp]: "rne (of_int k) = k"
  by (simp add: rne_def)

lemma rne_near:
  assumes "\<bar>y - of_int m\<bar> < 1 / 2"
  shows "rne y = m"
proof -
  have "\<bar>of_int (rne y) - (of_int m :: rat)\<bar> \<le> \<bar>of_int (rne y) - y\<bar> + \<bar>y - of_int m\<bar>"
    by simp
  also have "\<dots> < 1 / 2 + 1 / 2" using rne_close[of y] assms by linarith
  finally have "\<bar>(of_int (rne y - m) :: rat)\<bar> < 1" by simp
  then have "\<bar>rne y - m\<bar> < 1" by (metis of_int_abs of_int_less_1_iff)
  then show ?thesis by simp
qed

lemma rne_nonneg: "0 \<le> y \<Longrightarrow> 0 \<le> rne y"
  unfolding rne_def Let_def by (auto simp: zero_le_floor)

text \<open>The result is within half a unit in the last place, and not negative.\<close>

lemma round_pos_error:
  assumes "0 < q" and "round_pos q = Fin r"
  shows "\<bar>r - q\<bar> \<le> q / 2 ^ 53 + 1 / 2 ^ 1075" and "0 \<le> r"
proof -
  define e where "e = max (ilog2 q - 52) (- 1074)"
  define y where "y = q / 2 powi e"
  have P: "(0::rat) < 2 powi e" by simp
  from assms(2) have r: "r = of_int (rne y) * 2 powi e"
    by (simp add: round_pos_def e_def y_def Let_def split: if_splits)
  have q: "q = y * 2 powi e" by (simp add: y_def)
  have "0 \<le> y" using assms(1) by (simp add: y_def)
  then show "0 \<le> r" unfolding r by (simp add: rne_nonneg)
  have "\<bar>r - q\<bar> = \<bar>of_int (rne y) - y\<bar> * 2 powi e"
    unfolding r by (subst q) (simp add: abs_mult flip: left_diff_distrib)
  also have "\<dots> \<le> 1 / 2 * 2 powi e"
    using rne_close[of y] P by (simp add: mult_right_mono del: zero_less_power_int)
  finally have half: "\<bar>r - q\<bar> \<le> 2 powi e / 2" by simp
  have "2 powi e / 2 \<le> q / 2 ^ 53 + 1 / 2 ^ 1075"
  proof (cases "- 1074 \<le> ilog2 q - 52")
    case True
    then have "e = ilog2 q - 52" by (simp add: e_def)
    then have "(2::rat) powi e = 2 powi (ilog2 q) / 2 ^ 52" by (simp add: power_int_diff)
    also have "\<dots> \<le> q / 2 ^ 52" using ilog2_bounds[OF assms(1)] by (simp add: divide_right_mono)
    finally have "2 powi e / 2 \<le> q / 2 ^ 53" by simp
    then show ?thesis by simp
  next
    case False
    then have "e = - 1074" by (simp add: e_def)
    then have "(2::rat) powi e / 2 = 1 / 2 ^ 1075" by (simp add: power_int_minus field_simps)
    with assms(1) show ?thesis by simp
  qed
  with half show "\<bar>r - q\<bar> \<le> q / 2 ^ 53 + 1 / 2 ^ 1075" by linarith
qed

text \<open>A value with at most 53 significant bits is its own rounding.\<close>

lemma round_pos_exact:
  assumes m: "0 < m" "m < 2 ^ 53" and k: "- 1074 \<le> k" and q: "q = of_int m * 2 powi k"
    and fin: "q < 2 ^ 1024 - 2 ^ 970"
  shows "round_pos q = Fin q"
proof -
  define e where "e = max (ilog2 q - 52) (- 1074)"
  have qpos: "0 < q" using m(1) by (simp add: q)
  have "(of_int m :: rat) < of_int (2 ^ 53)" using m(2) by (simp only: of_int_less_iff)
  then have "q < 2 ^ 53 * 2 powi k" by (simp add: q)
  also have "\<dots> = 2 powi (53 + k)" by (simp add: power_int_add)
  finally have "2 powi (ilog2 q) < (2::rat) powi (53 + k)"
    using ilog2_bounds[OF qpos] by simp
  then have "ilog2 q < 53 + k" by (rule powi2_less_D)
  with k have ek: "e \<le> k" by (simp add: e_def)
  have "q / 2 powi e = of_int m * 2 powi (k - e)" by (simp add: q power_int_diff)
  also have "\<dots> = of_int (m * 2 ^ nat (k - e))" using ek by (simp add: power_int_nonneg_exp)
  finally have "rne (q / 2 powi e) = m * 2 ^ nat (k - e)" by (simp only: rne_of_int)
  then have "(of_int (rne (q / 2 powi e)) :: rat) * 2 powi e
      = of_int m * (2 powi (k - e) * 2 powi e)"
    using ek by (simp add: power_int_nonneg_exp)
  also have "\<dots> = q" by (simp add: q flip: power_int_add)
  finally show ?thesis using fin by (simp add: round_pos_def Let_def flip: e_def)
qed

lemma round_pos_nat:
  assumes "0 < n" "n \<le> 2 ^ 53"
  shows "round_pos (of_nat n) = Fin (of_nat n)"
proof (cases "n = 2 ^ 53")
  case True
  have "round_pos (of_int 1 * 2 powi 53) = Fin (of_int 1 * 2 powi 53)"
    by (rule round_pos_exact[where m = 1 and k = 53]) simp_all
  then show ?thesis using True by simp
next
  case False
  with assms have lt: "int n < 2 ^ 53" by simp
  have "(of_int (int n) :: rat) < of_int (2 ^ 53)" using lt by (simp only: of_int_less_iff)
  then have "(of_nat n :: rat) < 2 ^ 1024 - 2 ^ 970" by simp
  then have "round_pos (of_int (int n) * 2 powi 0) = Fin (of_int (int n) * 2 powi 0)"
    using assms(1) lt by (intro round_pos_exact[where m = "int n" and k = 0]) simp_all
  then show ?thesis by simp
qed

text \<open>A rounding is checked by its binade and its distance to the result.\<close>

lemma round_pos_cert:
  assumes "2 powi (e + 52) \<le> q" "q < 2 powi (e + 53)" "- 1074 \<le> e" "q < 2 ^ 1024 - 2 ^ 970"
    and "\<bar>q / 2 powi e - of_int m\<bar> < 1 / 2"
  shows "round_pos q = Fin (of_int m * 2 powi e)"
proof -
  have "ilog2 q = e + 52"
    using assms(1,2) by (intro ilog2_unique) (simp_all add: add.commute add.left_commute)
  then have "max (ilog2 q - 52) (- 1074) = e" using assms(3) by simp
  moreover have "rne (q / 2 powi e) = m" using assms(5) by (rule rne_near)
  ultimately show ?thesis using assms(4) by (simp add: round_pos_def Let_def)
qed

lemma round_pos_underflow:
  assumes "0 < q" "q < 1 / 2 ^ 1075"
  shows "round_pos q = Fin 0"
proof -
  have "2 powi (ilog2 q) < (2::rat) powi (- 1075)"
    using ilog2_bounds[OF assms(1)] assms(2) by (simp add: power_int_minus field_simps)
  then have "ilog2 q < - 1075" by (rule powi2_less_D)
  then have e: "max (ilog2 q - 52) (- 1074) = - 1074" by simp
  have "q / 2 powi (- 1074) < 1 / 2"
    using assms(2) by (simp add: power_int_minus field_simps)
  then have "\<bar>q / 2 powi (- 1074) - of_int 0\<bar> < 1 / 2" using assms(1) by (simp add: abs_if)
  then have "rne (q / 2 powi (- 1074)) = 0" by (rule rne_near)
  moreover have "\<not> 2 ^ 1024 - 2 ^ 970 \<le> q"
  proof -
    have "q < 1" using assms(2) by (rule less_trans) simp
    then show ?thesis by simp
  qed
  ultimately show ?thesis by (simp add: round_pos_def Let_def e)
qed

lemma round_pos_overflow: "2 ^ 1024 - 2 ^ 970 \<le> q \<Longrightarrow> round_pos q = PInf"
  by (simp add: round_pos_def)

section \<open>One decimal place\<close>

lemma digit_cases:
  assumes "0 \<le> k" "k < 10"
  shows "digit_value (digit k) = Some k" and "digit k \<noteq> CHR ''.''"
proof -
  from assms have "k = 0 \<or> k = 1 \<or> k = 2 \<or> k = 3 \<or> k = 4 \<or> k = 5 \<or> k = 6 \<or> k = 7 \<or> k = 8 \<or> k = 9"
    by arith
  then show "digit_value (digit k) = Some k" and "digit k \<noteq> CHR ''.''"
    by (auto simp: digit_def digit_value_def)
qed

lemma digit_neg: "k < 0 \<Longrightarrow> digit k = CHR ''0''"
  by (simp add: digit_def)

lemma show_int_nodot: "CHR ''.'' \<notin> set (show_int n)"
proof (induction n rule: show_int.induct)
  case (1 n)
  show ?case
  proof (cases "n < 10")
    case True
    then have "digit n \<noteq> CHR ''.''"
      by (cases "0 \<le> n") (simp_all add: digit_cases(2) digit_neg)
    with True show ?thesis by (subst show_int.simps) simp
  next
    case False
    have "digit (n mod 10) \<noteq> CHR ''.''" by (rule digit_cases(2)) simp_all
    with False 1 show ?thesis by (subst show_int.simps) simp
  qed
qed

lemma show_int_nonempty: "show_int n \<noteq> []"
  by (subst show_int.simps) simp

lemma digits_value_append:
  "digits_value a (xs @ ys) = (case digits_value a xs of None \<Rightarrow> None | Some v \<Rightarrow> digits_value v ys)"
  by (induction xs arbitrary: a) (auto split: option.splits)

lemma digits_value_show_int: "0 \<le> n \<Longrightarrow> digits_value 0 (show_int n) = Some n"
proof (induction n rule: show_int.induct)
  case (1 n)
  show ?case
  proof (cases "n < 10")
    case True
    with 1(2) show ?thesis by (subst show_int.simps) (simp add: digit_cases(1))
  next
    case False
    with 1 have IH: "digits_value 0 (show_int (n div 10)) = Some (n div 10)" by simp
    have "digit_value (digit (n mod 10)) = Some (n mod 10)" by (rule digit_cases(1)) simp_all
    with False IH show ?thesis
      by (subst show_int.simps) (simp add: digits_value_append)
  qed
qed

lemma one_decimal_decimal1:
  assumes "0 \<le> n"
  shows "one_decimal (decimal1 n) = Some (of_int n / 10)"
proof -
  have tw: "takeWhile (\<lambda>c. c \<noteq> CHR ''.'') (decimal1 n) = show_int (n div 10)"
  proof -
    have "\<And>x. x \<in> set (show_int (n div 10)) \<Longrightarrow> x \<noteq> CHR ''.''"
      using show_int_nodot[of "n div 10"] by auto
    then show ?thesis unfolding decimal1_def by (simp add: takeWhile_append2)
  qed
  have i: "digits_value 0 (show_int (n div 10)) = Some (n div 10)"
    using assms by (intro digits_value_show_int) simp
  have f: "digit_value (digit (n mod 10)) = Some (n mod 10)"
    by (rule digit_cases(1)) simp_all
  define A B :: rat where "A = of_int (n div 10)" and "B = of_int (n mod 10)"
  have "(of_int n :: rat) = of_int (n div 10 * 10 + n mod 10)" by simp
  also have "\<dots> = A * 10 + B"
    unfolding A_def B_def by (simp only: of_int_add of_int_mult of_int_numeral)
  finally have "A + B / 10 = of_int n / 10" by simp
  then have v: "(of_int (n div 10) :: rat) + of_int (n mod 10) / 10 = of_int n / 10"
    unfolding A_def B_def .
  show ?thesis
    unfolding one_decimal_def tw
    by (simp add: decimal1_def show_int_nonempty i f v Let_def)
qed

lemma toFixed1_decimal1:
  assumes "0 \<le> q" "q < 10 ^ 21"
  shows "toFixed 1 (Fin q) = decimal1 \<lfloor>q * 10 + 1 / 2\<rfloor>"
proof -
  define n where "n = \<lfloor>q * 10 + 1 / 2\<rfloor>"
  have n0: "0 \<le> n" unfolding n_def using assms(1) by (simp add: zero_le_floor)
  have tf: "toFixed 1 (Fin q) =
      (let m = show_int n; m = (if length m \<le> 1 then replicate (2 - length m) (CHR ''0'') @ m else m)
       in take (length m - 1) m @ ''.'' @ drop (length m - 1) m)"
    using assms by (simp add: toFixed_def n_def Let_def abs_if)
  show ?thesis
  proof (cases "n < 10")
    case True
    then have "show_int n = [digit n]" by (subst show_int.simps) simp
    moreover have "show_int (n div 10) = ''0''" using True n0
      by (subst show_int.simps) (simp add: digit_def)
    moreover have "n mod 10 = n" using True n0 by simp
    ultimately show ?thesis unfolding tf decimal1_def n_def[symmetric] by (simp add: Let_def)
  next
    case False
    then have "show_int n = show_int (n div 10) @ [digit (n mod 10)]"
      by (subst show_int.simps) simp
    then show ?thesis unfolding tf decimal1_def n_def[symmetric]
      using show_int_nonempty[of "n div 10"] by (simp add: Let_def)
  qed
qed

lemma tenth_close: "\<bar>of_int \<lfloor>q * 10 + 1 / 2\<rfloor> / 10 - q\<bar> \<le> (1 / 20 :: rat)"
proof -
  define F :: rat where "F = of_int \<lfloor>q * 10 + 1 / 2\<rfloor>"
  have "F \<le> q * 10 + 1 / 2" and "q * 10 + 1 / 2 < F + 1"
    unfolding F_def using floor_correct[of "q * 10 + 1 / 2"] by simp_all
  then have "F / 10 - q \<le> 1 / 20" and "q - F / 10 \<le> 1 / 20" by linarith+
  then have "\<bar>F / 10 - q\<bar> \<le> 1 / 20" by linarith
  then show ?thesis unfolding F_def .
qed

section \<open>Pace and speed\<close>

lemma js_div_pos: "0 < a \<Longrightarrow> 0 < b \<Longrightarrow> js_div (Fin a) (Fin b) = round_pos (a / b)"
  by (simp add: to_double_def)

lemma js_div_pos_nonneg:
  assumes "0 < a" "0 < b" "js_div (Fin a) (Fin b) = Fin q"
  shows "0 \<le> q"
proof -
  from js_div_pos[OF assms(1,2)] assms(3) have "round_pos (a / b) = Fin q" by simp
  moreover have "0 < a / b" using assms(1,2) by simp
  ultimately show ?thesis by (rule round_pos_error(2)[rotated])
qed

lemma js_div_nonneg_60:
  assumes "0 < d" "0 < t" "js_div (Fin d) (js_div (Fin t) (Fin 60)) = Fin q"
  shows "0 \<le> q"
proof (cases "js_div (Fin t) (Fin 60)")
  case (Fin y)
  then have y0: "0 \<le> y" using assms(2) js_div_pos_nonneg[of t 60 y] by simp
  show ?thesis
  proof (cases "y = 0")
    case True
    with Fin assms show ?thesis by simp
  next
    case False
    with y0 have "0 < y" by simp
    with Fin assms show ?thesis using js_div_pos_nonneg[of d y q] by simp
  qed
next
  case PInf
  with assms show ?thesis by simp
next
  case NInf
  with assms show ?thesis by simp
next
  case NaN
  with assms show ?thesis by simp
qed

lemma tenth_of_double:
  assumes "0 \<le> q" "q < 10 ^ 21"
  shows "toFixed 1 (Fin q) = decimal1 \<lfloor>q * 10 + 1 / 2\<rfloor>"
    and "one_decimal (toFixed 1 (Fin q)) = Some (of_int \<lfloor>q * 10 + 1 / 2\<rfloor> / 10)"
proof -
  show eq: "toFixed 1 (Fin q) = decimal1 \<lfloor>q * 10 + 1 / 2\<rfloor>"
    using assms by (rule toFixed1_decimal1)
  have "0 \<le> \<lfloor>q * 10 + 1 / 2\<rfloor>" using assms(1) by (simp add: zero_le_floor)
  then show "one_decimal (toFixed 1 (Fin q)) = Some (of_int \<lfloor>q * 10 + 1 / 2\<rfloor> / 10)"
    unfolding eq by (rule one_decimal_decimal1)
qed

lemma pace_Running [simp]: "pace (Running e c d t cad) = toFixed 1 (js_div t d)"
  by (simp add: Running_def Workout_def calcPace_def Let_def)

lemma speed_Cycling [simp]: "speed (Cycling e c d t el) = toFixed 1 (js_div d (js_div t (Fin 60)))"
  by (simp add: Cycling_def Workout_def calcSpeed_def Let_def)

lemma double_5_2: "to_double (52 / 10) = Fin (5854679515581645 / 2 ^ 50)"
proof -
  have "round_pos (52 / 10) = Fin (of_int 5854679515581645 * 2 powi (- 50))"
    by (rule round_pos_cert) (simp_all add: power_int_minus abs_if)
  then show ?thesis by (simp add: to_double_def power_int_minus field_simps)
qed

lemma quotient_24_5_2:
  "js_div (Fin 24) (Fin (5854679515581645 / 2 ^ 50)) = Fin (2598230554252209 / 2 ^ 49)"
proof -
  have "round_pos (24 / (5854679515581645 / 2 ^ 50))
      = Fin (of_int 5196461108504418 * 2 powi (- 50))"
    by (rule round_pos_cert) (simp_all add: power_int_minus abs_if)
  then show ?thesis by (simp add: to_double_def power_int_minus field_simps)
qed

lemma show_int_digit: "0 \<le> n \<Longrightarrow> n < 10 \<Longrightarrow> show_int n = [digit n]"
  by (subst show_int.simps) simp

lemma scenario_pace: "toFixed 1 (js_div (Fin 24) (to_double (52 / 10))) = ''4.6''"
proof -
  have "\<lfloor>(2598230554252209 / 2 ^ 49 :: rat) * 10 + 1 / 2\<rfloor> = 46"
    by (rule floor_unique) simp_all
  then have "toFixed 1 (Fin (2598230554252209 / 2 ^ 49)) = decimal1 46"
    using toFixed1_decimal1[of "2598230554252209 / 2 ^ 49"] by simp
  also have "\<dots> = ''4.6''"
    by (simp add: decimal1_def show_int_digit digit_def)
  finally show ?thesis by (simp only: double_5_2 quotient_24_5_2)
qed

text \<open>
  Claim C1, as the code has it. For a positive finite distance \<open>d\<close> and duration \<open>t\<close>,
  the pace a Running is constructed with is the quotient \<open>t / d\<close> of the two doubles
  written to the nearest tenth (a tie going up), and the speed of a Cycling is
  \<open>d / (t / 60)\<close> written so, whenever that quotient is a double below \<open>10\<^sup>2\<^sup>1\<close>; the one
  later write to a record, \<open>click\<close>, changes neither. A Running of 5.2 km in 24 min has the
  pace \<open>4.6\<close>.
\<close>

theorem derived_metric_at_construction:
  assumes "0 < d" and "0 < t"
  shows "(\<forall>q. js_div (Fin t) (Fin d) = Fin q \<and> q < 10 ^ 21 \<longrightarrow>
            pace (Running e c (Fin d) (Fin t) cad) = decimal1 \<lfloor>q * 10 + 1 / 2\<rfloor> \<and>
            one_decimal (pace (Running e c (Fin d) (Fin t) cad))
              = Some (of_int \<lfloor>q * 10 + 1 / 2\<rfloor> / 10) \<and>
            \<bar>of_int \<lfloor>q * 10 + 1 / 2\<rfloor> / 10 - q\<bar> \<le> 1 / 20) \<and>
         (\<forall>q. js_div (Fin d) (js_div (Fin t) (Fin 60)) = Fin q \<and> q < 10 ^ 21 \<longrightarrow>
            speed (Cycling e c (Fin d) (Fin t) el) = decimal1 \<lfloor>q * 10 + 1 / 2\<rfloor> \<and>
            one_decimal (speed (Cycling e c (Fin d) (Fin t) el))
              = Some (of_int \<lfloor>q * 10 + 1 / 2\<rfloor> / 10) \<and>
            \<bar>of_int \<lfloor>q * 10 + 1 / 2\<rfloor> / 10 - q\<bar> \<le> 1 / 20) \<and>
         pace (click (r :: running)) = pace r \<and> speed (click (cy :: cycling)) = speed cy \<and>
         pace (Running e lisbon (to_double (52 / 10)) (Fin 24) (Fin 178)) = ''4.6''"
proof (intro conjI allI impI)
  fix q assume q: "js_div (Fin t) (Fin d) = Fin q \<and> q < 10 ^ 21"
  with assms have q0: "0 \<le> q" using js_div_pos_nonneg[of t d q] by simp
  from q have lt: "q < 10 ^ 21" ..
  from q have P: "pace (Running e c (Fin d) (Fin t) cad) = toFixed 1 (Fin q)"
    by (simp only: pace_Running)
  show "pace (Running e c (Fin d) (Fin t) cad) = decimal1 \<lfloor>q * 10 + 1 / 2\<rfloor>"
    unfolding P using q0 lt by (rule tenth_of_double(1))
  show "one_decimal (pace (Running e c (Fin d) (Fin t) cad))
      = Some (of_int \<lfloor>q * 10 + 1 / 2\<rfloor> / 10)"
    unfolding P using q0 lt by (rule tenth_of_double(2))
  show "\<bar>of_int \<lfloor>q * 10 + 1 / 2\<rfloor> / 10 - q\<bar> \<le> 1 / 20" by (rule tenth_close)
next
  fix q assume q: "js_div (Fin d) (js_div (Fin t) (Fin 60)) = Fin q \<and> q < 10 ^ 21"
  with assms have q0: "0 \<le> q" using js_div_nonneg_60[of d t q] by simp
  from q have lt: "q < 10 ^ 21" ..
  from q have P: "speed (Cycling e c (Fin d) (Fin t) el) = toFixed 1 (Fin q)"
    by (simp only: speed_Cycling)
  show "speed (Cycling e c (Fin d) (Fin t) el) = decimal1 \<lfloor>q * 10 + 1 / 2\<rfloor>"
    unfolding P using q0 lt by (rule tenth_of_double(1))
  show "one_decimal (speed (Cycling e c (Fin d) (Fin t) el))
      = Some (of_int \<lfloor>q * 10 + 1 / 2\<rfloor> / 10)"
    unfolding P using q0 lt by (rule tenth_of_double(2))
  show "\<bar>of_int \<lfloor>q * 10 + 1 / 2\<rfloor> / 10 - q\<bar> \<le> 1 / 20" by (rule tenth_close)
next
  show "pace (click r) = pace r" by (simp add: click_def)
  show "speed (click cy) = speed cy" by (simp add: click_def)
  show "pace (Running e lisbon (to_double (52 / 10)) (Fin 24) (Fin 178)) = ''4.6''"
    by (simp only: pace_Running scenario_pace)
qed


lemma show_int_step: "10 \<le> n \<Longrightarrow> show_int n = show_int (n div 10) @ [digit (n mod 10)]"
  by (subst show_int.simps) simp

lemma to_double_int:
  assumes "0 < k" "k \<le> 2 ^ 53"
  shows "to_double (of_int k) = Fin (of_int k)"
proof -
  from assms have "0 < nat k" "nat k \<le> 2 ^ 53" by (simp_all add: nat_le_iff)
  then have "round_pos (of_nat (nat k)) = Fin (of_nat (nat k))" by (rule round_pos_nat)
  with assms(1) show ?thesis by (simp add: to_double_def)
qed

lemma to_double_numeral:
  "(numeral k :: int) \<le> 2 ^ 53 \<Longrightarrow> to_double (numeral k) = Fin (numeral k)"
  using to_double_int[of "numeral k"] by simp

lemma to_double_1: "to_double 1 = Fin 1"
  using to_double_int[of 1] by simp

text \<open>The theorem at 20 km in 60 min: the pace is \<open>3.0\<close>, the speed \<open>20.0\<close>.\<close>

theorem derived_metric_at_construction_witness:
  "(0::rat) < 20 \<and> (0::rat) < 60 \<and>
   js_div (Fin 60) (Fin 20) = Fin 3 \<and>
   pace (Running noon lisbon (Fin 20) (Fin 60) (Fin 170)) = ''3.0'' \<and>
   js_div (Fin 20) (js_div (Fin 60) (Fin 60)) = Fin 20 \<and>
   speed (Cycling noon lisbon (Fin 20) (Fin 60) (Fin 300)) = ''20.0''"
proof -
  have d: "(0::rat) < 20" and t: "(0::rat) < 60" by simp_all
  note inst = derived_metric_at_construction[OF d t, of noon lisbon "Fin 170" "Fin 300"]
  have p: "js_div (Fin 60) (Fin 20) = Fin 3 \<and> (3::rat) < 10 ^ 21"
    by (simp add: to_double_numeral)
  have s: "js_div (Fin 20) (js_div (Fin 60) (Fin 60)) = Fin 20 \<and> (20::rat) < 10 ^ 21"
    by (simp add: to_double_numeral to_double_1)
  from inst p have "pace (Running noon lisbon (Fin 20) (Fin 60) (Fin 170))
      = decimal1 \<lfloor>(3::rat) * 10 + 1 / 2\<rfloor>"
    by blast
  moreover have "\<lfloor>(3::rat) * 10 + 1 / 2\<rfloor> = 30" by (rule floor_unique) simp_all
  moreover have "decimal1 30 = ''3.0''"
    by (simp add: decimal1_def show_int_digit digit_def)
  moreover from inst s have "speed (Cycling noon lisbon (Fin 20) (Fin 60) (Fin 300))
      = decimal1 \<lfloor>(20::rat) * 10 + 1 / 2\<rfloor>"
    by blast
  moreover have "\<lfloor>(20::rat) * 10 + 1 / 2\<rfloor> = 200" by (rule floor_unique) simp_all
  moreover have "decimal1 200 = ''20.0''"
    by (simp add: decimal1_def show_int_digit show_int_step digit_def)
  ultimately show ?thesis using p s by simp
qed

lemma one_decimal_Infinity: "one_decimal ''Infinity'' = None"
  by (simp add: one_decimal_def)

text \<open>
  Claim C1 as it is written asks for a number with one decimal place at every positive
  finite distance and duration. At 1 km in \<open>2\<^sup>-\<^sup>1\<^sup>0\<^sup>7\<^sup>4\<close> min, the least positive double,
  \<open>duration / 60\<close> rounds to 0 and the speed is the string \<open>Infinity\<close>.
\<close>

theorem speed_of_tiny_duration:
  "isFinite (Fin 1) \<and> js_gt (Fin 1) (Fin 0) \<and>
   isFinite (Fin (1 / 2 ^ 1074)) \<and> js_gt (Fin (1 / 2 ^ 1074)) (Fin 0) \<and>
   speed (Cycling noon lisbon (Fin 1) (Fin (1 / 2 ^ 1074)) (Fin 0)) = ''Infinity'' \<and>
   one_decimal (speed (Cycling noon lisbon (Fin 1) (Fin (1 / 2 ^ 1074)) (Fin 0))) = None"
proof -
  have "round_pos (1 / 2 ^ 1074 / 60) = Fin 0"
    by (rule round_pos_underflow) simp_all
  then have "js_div (Fin (1 / 2 ^ 1074)) (Fin 60) = Fin 0"
    by (simp add: to_double_def)
  then have "speed (Cycling noon lisbon (Fin 1) (Fin (1 / 2 ^ 1074)) (Fin 0)) = ''Infinity''"
    by (simp add: toFixed_def)
  then show ?thesis by (simp add: one_decimal_Infinity)
qed

text \<open>
  Claim C7, as the code has it. \<open>calcPace\<close> and \<open>calcSpeed\<close> depend on the distance and
  the duration of the record alone. For a positive finite distance \<open>d\<close> and duration \<open>t\<close>
  whose quotient is a double below \<open>10\<^sup>2\<^sup>1\<close>, the pace is a number \<open>v\<close> with one decimal
  place, and \<open>v \<times> d\<close> differs from \<open>t\<close> by at most \<open>d / 20\<close>, from the rounding to a
  tenth, and \<open>t / 2\<^sup>5\<^sup>3 + d / 2\<^sup>1\<^sup>0\<^sup>7\<^sup>5\<close>, from the rounding of the quotient to a double; the
  speed is a number with one decimal place within \<open>1 / 20\<close> of its quotient.
\<close>

theorem pace_within_tolerance:
  assumes "0 < d" and "0 < t" and "distance w = Fin d" and "duration w = Fin t"
  shows "(\<forall>q. js_div (Fin t) (Fin d) = Fin q \<and> q < 10 ^ 21 \<longrightarrow>
            (\<exists>v. one_decimal (calcPace w) = Some v \<and>
                 \<bar>v * d - t\<bar> \<le> d / 20 + t / 2 ^ 53 + d / 2 ^ 1075)) \<and>
         (\<forall>q. js_div (Fin d) (js_div (Fin t) (Fin 60)) = Fin q \<and> q < 10 ^ 21 \<longrightarrow>
            (\<exists>v. one_decimal (calcSpeed w) = Some v \<and> \<bar>v - q\<bar> \<le> 1 / 20)) \<and>
         (\<forall>w' :: 'b workout_scheme. distance w' = distance w \<and> duration w' = duration w \<longrightarrow>
            calcPace w' = calcPace w \<and> calcSpeed w' = calcSpeed w)"
proof (intro conjI allI impI)
  fix q assume q: "js_div (Fin t) (Fin d) = Fin q \<and> q < 10 ^ 21"
  from q have lt: "q < 10 ^ 21" ..
  have td: "0 < t / d" using assms(1,2) by simp
  from q js_div_pos[OF assms(2,1)] have rp: "round_pos (t / d) = Fin q" by simp
  have q0: "0 \<le> q" using td rp by (rule round_pos_error(2))
  define E1 E2 :: rat where "E1 = 1 / 2 ^ 53" and "E2 = 1 / 2 ^ 1075"
  have err: "\<bar>q - t / d\<bar> \<le> t / d * E1 + E2"
    using round_pos_error(1)[OF td rp] unfolding E1_def E2_def by simp
  define v :: rat where "v = of_int \<lfloor>q * 10 + 1 / 2\<rfloor> / 10"
  have P: "calcPace w = toFixed 1 (Fin q)" using q assms(3,4) by (simp only: calcPace_def)
  have od: "one_decimal (calcPace w) = Some v"
    unfolding P v_def using q0 lt by (rule tenth_of_double(2))
  have "\<bar>v - q\<bar> \<le> 1 / 20" unfolding v_def by (rule tenth_close)
  with err have "\<bar>v - t / d\<bar> \<le> 1 / 20 + t / d * E1 + E2" by linarith
  then have "\<bar>v - t / d\<bar> * d \<le> (1 / 20 + t / d * E1 + E2) * d"
    using assms(1) by (simp add: mult_right_mono)
  moreover have "\<bar>v - t / d\<bar> * d = \<bar>v * d - t\<bar>"
  proof -
    have "\<bar>v - t / d\<bar> * d = \<bar>(v - t / d) * d\<bar>" using assms(1) by (simp add: abs_mult)
    also have "(v - t / d) * d = v * d - t" using assms(1) by (simp add: field_simps)
    finally show ?thesis .
  qed
  moreover have "(1 / 20 + t / d * E1 + E2) * d = d / 20 + t * E1 + d * E2"
    using assms(1) by (simp add: field_simps)
  ultimately have "\<bar>v * d - t\<bar> \<le> d / 20 + t * E1 + d * E2" by simp
  then have "\<bar>v * d - t\<bar> \<le> d / 20 + t / 2 ^ 53 + d / 2 ^ 1075"
    unfolding E1_def E2_def by simp
  with od show "\<exists>v. one_decimal (calcPace w) = Some v \<and>
      \<bar>v * d - t\<bar> \<le> d / 20 + t / 2 ^ 53 + d / 2 ^ 1075"
    by blast
next
  fix q assume q: "js_div (Fin d) (js_div (Fin t) (Fin 60)) = Fin q \<and> q < 10 ^ 21"
  from q have lt: "q < 10 ^ 21" ..
  from q assms have q0: "0 \<le> q" using js_div_nonneg_60[of d t q] by simp
  have P: "calcSpeed w = toFixed 1 (Fin q)" using q assms(3,4) by (simp only: calcSpeed_def)
  have "one_decimal (calcSpeed w) = Some (of_int \<lfloor>q * 10 + 1 / 2\<rfloor> / 10)"
    unfolding P using q0 lt by (rule tenth_of_double(2))
  then show "\<exists>v. one_decimal (calcSpeed w) = Some v \<and> \<bar>v - q\<bar> \<le> 1 / 20"
    using tenth_close[of q] by blast
next
  fix w' :: "'b workout_scheme"
  assume "distance w' = distance w \<and> duration w' = duration w"
  then show "calcPace w' = calcPace w" and "calcSpeed w' = calcSpeed w"
    by (simp_all add: calcPace_def calcSpeed_def)
qed


lemma quotient_24_60: "js_div (Fin 24) (Fin 60) = Fin (3602879701896397 / 2 ^ 53)"
proof -
  have "round_pos (24 / 60) = Fin (of_int 7205759403792794 * 2 powi (- 54))"
    by (rule round_pos_cert) (simp_all add: power_int_minus abs_if)
  then show ?thesis by (simp add: to_double_def power_int_minus field_simps)
qed

lemma quotient_5_2_0_4:
  "js_div (Fin (5854679515581645 / 2 ^ 50)) (Fin (3602879701896397 / 2 ^ 53)) = Fin 13"
proof -
  have "round_pos (5854679515581645 / 2 ^ 50 / (3602879701896397 / 2 ^ 53))
      = Fin (of_int 7318349394477056 * 2 powi (- 49))"
    by (rule round_pos_cert) (simp_all add: power_int_minus abs_if)
  then show ?thesis by (simp add: to_double_def power_int_minus field_simps)
qed

text \<open>
  The theorem at 5.2 km in 24 min, the double nearest to 5.2 being
  \<open>5854679515581645 / 2\<^sup>5\<^sup>0\<close>.
\<close>

theorem pace_within_tolerance_witness:
  "(0::rat) < 5854679515581645 / 2 ^ 50 \<and> (0::rat) < 24 \<and>
   js_div (Fin 24) (Fin (5854679515581645 / 2 ^ 50)) = Fin (2598230554252209 / 2 ^ 49) \<and>
   (\<exists>v. one_decimal (calcPace (Workout noon lisbon (Fin (5854679515581645 / 2 ^ 50)) (Fin 24)))
          = Some v \<and>
        \<bar>v * (5854679515581645 / 2 ^ 50) - 24\<bar>
          \<le> 5854679515581645 / 2 ^ 50 / 20 + 24 / 2 ^ 53 + 5854679515581645 / 2 ^ 50 / 2 ^ 1075) \<and>
   js_div (Fin (5854679515581645 / 2 ^ 50)) (js_div (Fin 24) (Fin 60)) = Fin 13 \<and>
   (\<exists>v. one_decimal (calcSpeed (Workout noon lisbon (Fin (5854679515581645 / 2 ^ 50)) (Fin 24)))
          = Some v \<and> \<bar>v - 13\<bar> \<le> 1 / 20) \<and>
   calcPace (Running later lisbon (Fin (5854679515581645 / 2 ^ 50)) (Fin 24) (Fin 178))
     = calcPace (Workout noon lisbon (Fin (5854679515581645 / 2 ^ 50)) (Fin 24))"
proof -
  define d :: rat where "d = 5854679515581645 / 2 ^ 50"
  define w where "w = Workout noon lisbon (Fin d) (Fin 24)"
  have d0: "0 < d" and t0: "(0::rat) < 24" by (simp_all add: d_def)
  have wd: "distance w = Fin d" and wt: "duration w = Fin 24"
    by (simp_all add: w_def Workout_def)
  note inst = pace_within_tolerance[OF d0 t0 wd wt,
      where 'b = "\<lparr>cadence :: number, pace :: string, description :: string\<rparr>"]
  have p: "js_div (Fin 24) (Fin d) = Fin (2598230554252209 / 2 ^ 49)
      \<and> (2598230554252209 / 2 ^ 49 :: rat) < 10 ^ 21"
    unfolding d_def by (simp only: quotient_24_5_2) simp
  have s: "js_div (Fin d) (js_div (Fin 24) (Fin 60)) = Fin 13 \<and> (13 :: rat) < 10 ^ 21"
    unfolding d_def by (simp only: quotient_24_60 quotient_5_2_0_4) simp
  have r: "distance (Running later lisbon (Fin d) (Fin 24) (Fin 178)) = distance w \<and>
      duration (Running later lisbon (Fin d) (Fin 24) (Fin 178)) = duration w"
    by (simp add: w_def Running_def Workout_def Let_def)
  from inst p have "\<exists>v. one_decimal (calcPace w) = Some v \<and>
      \<bar>v * d - 24\<bar> \<le> d / 20 + 24 / 2 ^ 53 + d / 2 ^ 1075"
    by blast
  moreover from inst s have "\<exists>v. one_decimal (calcSpeed w) = Some v \<and> \<bar>v - 13\<bar> \<le> 1 / 20"
    by blast
  moreover from inst r have "calcPace (Running later lisbon (Fin d) (Fin 24) (Fin 178)) = calcPace w"
    by blast
  ultimately show ?thesis using d0 p s unfolding w_def d_def by simp
qed

text \<open>
  Claim C7 as it is written covers every positive finite distance and duration. At
  0.25 km in \<open>2\<^sup>1\<^sup>0\<^sup>2\<^sup>3\<close> min the quotient overflows: the pace is the string
  \<open>Infinity\<close>, which has no decimal place and, multiplied by the distance, is infinite.
\<close>

theorem pace_of_huge_duration:
  "isFinite (Fin (1 / 4)) \<and> js_gt (Fin (1 / 4)) (Fin 0) \<and>
   isFinite (Fin (2 ^ 1023)) \<and> js_gt (Fin (2 ^ 1023)) (Fin 0) \<and>
   calcPace (Workout noon lisbon (Fin (1 / 4)) (Fin (2 ^ 1023))) = ''Infinity'' \<and>
   one_decimal (calcPace (Workout noon lisbon (Fin (1 / 4)) (Fin (2 ^ 1023)))) = None \<and>
   js_div (Fin (2 ^ 1023)) (Fin (1 / 4)) = PInf"
proof -
  have "round_pos (2 ^ 1023 / (1 / 4)) = PInf"
    by (rule round_pos_overflow) simp
  then have q: "js_div (Fin (2 ^ 1023)) (Fin (1 / 4)) = PInf"
    by (simp add: to_double_def)
  then have "calcPace (Workout noon lisbon (Fin (1 / 4)) (Fin (2 ^ 1023))) = ''Infinity''"
    by (simp add: calcPace_def Workout_def toFixed_def)
  with q show ?thesis by (simp add: one_decimal_Infinity)
qed


section \<open>Submitting the form\<close>

lemma ready_eq:
  "ready = \<lparr>workouts = [],
            lmap = Some \<lparr>center = Arr [Num (fst lisbon), Num (snd lisbon)],
                         zoom = mapZoomLevel, markers = []\<rparr>,
            mapEvnt = Some lisbon, storage = None, entries = [], form_hidden = False,
            alerts = []\<rparr>"
  by (simp add: ready_def App_def getLocalStorage_def loadMap_def showForm_def)

lemma opened_eq:
  "opened = \<lparr>workouts = [],
             lmap = Some \<lparr>center = Arr [Num (fst lisbon), Num (snd lisbon)],
                          zoom = mapZoomLevel, markers = []\<rparr>,
             mapEvnt = None, storage = None, entries = [], form_hidden = True,
             alerts = []\<rparr>"
  by (simp add: opened_def App_def getLocalStorage_def loadMap_def)

lemma and_then_simps [simp]:
  "and_then (Returned, s) f = f s"
  "and_then (Threw e, s) f = (Threw e, s)"
  by (simp_all add: and_then_def)

text \<open>
  Claim C2, as the code has it. A submission of type running or cycling, made after a
  click on the map, in which the distance or the duration, or the cadence of a running,
  is not finite or not positive, ends with the alert \<open>Inputs have to be positive
  numbers\<close> and changes nothing else: no record is constructed, the store and the stored
  item are as before.
\<close>

theorem invalid_submission_rejected:
  assumes "inputType f = ''running'' \<or> inputType f = ''cycling''"
    and "mapEvnt s = Some c"
    and "\<not> isFinite (inputDistance f) \<or> \<not> js_gt (inputDistance f) (Fin 0) \<or>
         \<not> isFinite (inputDuration f) \<or> \<not> js_gt (inputDuration f) (Fin 0) \<or>
         inputType f = ''running'' \<and>
           (\<not> isFinite (inputCadence f) \<or> \<not> js_gt (inputCadence f) (Fin 0))"
  shows "newWorkout e f s = (Returned, s\<lparr>alerts := alerts s @ [''Inputs have to be positive numbers'']\<rparr>) \<and>
         workouts (snd (newWorkout e f s)) = workouts s \<and>
         storage (snd (newWorkout e f s)) = storage s"
proof -
  from assms have "newWorkout e f s
      = (Returned, s\<lparr>alerts := alerts s @ [''Inputs have to be positive numbers'']\<rparr>)"
    by (auto simp: newWorkout_def validInputs_def allPositive_def alert_def Let_def)
  then show ?thesis by simp
qed

text \<open>The theorem at a running of distance 0.\<close>

theorem invalid_submission_rejected_witness:
  "inputType (run\<lparr>inputDistance := Fin 0\<rparr>) = ''running'' \<and> mapEvnt ready = Some lisbon \<and>
   \<not> js_gt (inputDistance (run\<lparr>inputDistance := Fin 0\<rparr>)) (Fin 0) \<and>
   newWorkout noon (run\<lparr>inputDistance := Fin 0\<rparr>) ready
     = (Returned, ready\<lparr>alerts := [''Inputs have to be positive numbers'']\<rparr>) \<and>
   workouts (snd (newWorkout noon (run\<lparr>inputDistance := Fin 0\<rparr>) ready)) = [] \<and>
   storage (snd (newWorkout noon (run\<lparr>inputDistance := Fin 0\<rparr>) ready)) = None"
proof -
  have a: "inputType (run\<lparr>inputDistance := Fin 0\<rparr>) = ''running''
      \<or> inputType (run\<lparr>inputDistance := Fin 0\<rparr>) = ''cycling''"
    by (simp add: run_def)
  have b: "mapEvnt ready = Some lisbon" by (simp add: ready_eq)
  have c: "\<not> js_gt (inputDistance (run\<lparr>inputDistance := Fin 0\<rparr>)) (Fin 0)" by simp
  from invalid_submission_rejected[OF a b, of noon] c a b
  show ?thesis by (simp add: run_def ready_eq)
qed

text \<open>
  Claim C2 as it is written covers every submission. One of type \<open>walking\<close> with the
  distance \<open>-1\<close> and a duration that is not a number is not rejected: there is no alert,
  and the store has a new entry.
\<close>

theorem unknown_type_not_rejected:
  "\<not> js_gt (inputDistance walk) (Fin 0) \<and> \<not> isFinite (inputDuration walk) \<and>
   mapEvnt ready = Some lisbon \<and>
   newWorkout noon walk ready = (Threw TypeError, ready\<lparr>workouts := [Undefined]\<rparr>) \<and>
   alerts (snd (newWorkout noon walk ready)) = []"
  by (simp add: walk_def ready_eq newWorkout_def renderWorkout_def)


lemma accepted_returns:
  assumes "mapEvnt s = Some c" and "lmap s = Some m"
    and "inputType f = ''running'' \<and> validInputs [inputDistance f, inputDuration f, inputCadence f]
           \<and> allPositive [inputDistance f, inputDuration f, inputCadence f] \<and>
           w = RunningObj (Running e c (inputDistance f) (inputDuration f) (inputCadence f)) \<or>
         inputType f = ''cycling'' \<and> validInputs [inputDistance f, inputDuration f, inputElevation f]
           \<and> allPositive [inputDistance f, inputDuration f] \<and>
           w = CyclingObj (Cycling e c (inputDistance f) (inputDuration f) (inputElevation f))"
  shows "fst (newWorkout e f s) = Returned"
    and "workouts (snd (newWorkout e f s)) = workouts s @ [w]"
    and "alerts (snd (newWorkout e f s)) = alerts s"
    and "storage (snd (newWorkout e f s)) = Some (to_json_elems (workouts s @ [w]))"
    and "form_hidden (snd (newWorkout e f s))"
    and "mapEvnt (snd (newWorkout e f s)) = Some c"
    and "lmap (snd (newWorkout e f s)) \<noteq> None"
  using assms
  by (auto simp: newWorkout_def renderWorkout_def renderWorkoutMarker_def hideForm_def
      setLocalStorage_def Let_def)


lemma rejected_returns:
  assumes "mapEvnt s = Some c"
    and "inputType f = ''running'' \<and>
           \<not> (validInputs [inputDistance f, inputDuration f, inputCadence f]
              \<and> allPositive [inputDistance f, inputDuration f, inputCadence f]) \<or>
         inputType f = ''cycling'' \<and>
           \<not> (validInputs [inputDistance f, inputDuration f, inputElevation f]
              \<and> allPositive [inputDistance f, inputDuration f])"
  shows "fst (newWorkout e f s) = Returned"
  using assms by (auto simp: newWorkout_def Let_def)

text \<open>
  Claim C9, as the code has it. After a click on the map, a submission whose type is
  neither running nor cycling, whatever its numbers, is not validated: \<open>undefined\<close> is
  appended to \<open>#workouts\<close>, and \<open>_renderWorkout\<close> throws a TypeError when it reads a
  property of it, before anything is stored. After a click on the map, the map being
  loaded, a submission of one of the two known types returns.
\<close>

theorem unknown_type_appends_undefined:
  assumes "mapEvnt s = Some c"
  shows "(inputType f \<noteq> ''running'' \<and> inputType f \<noteq> ''cycling'' \<longrightarrow>
            newWorkout e f s = (Threw TypeError, s\<lparr>workouts := workouts s @ [Undefined]\<rparr>) \<and>
            renderWorkout Undefined (s\<lparr>workouts := workouts s @ [Undefined]\<rparr>)
              = (Threw TypeError, s\<lparr>workouts := workouts s @ [Undefined]\<rparr>) \<and>
            alerts (snd (newWorkout e f s)) = alerts s \<and>
            storage (snd (newWorkout e f s)) = storage s) \<and>
         ((inputType f = ''running'' \<or> inputType f = ''cycling'') \<and> lmap s \<noteq> None \<longrightarrow>
            fst (newWorkout e f s) = Returned)"
proof (intro conjI impI)
  assume "inputType f \<noteq> ''running'' \<and> inputType f \<noteq> ''cycling''"
  with assms
  show "newWorkout e f s = (Threw TypeError, s\<lparr>workouts := workouts s @ [Undefined]\<rparr>)"
    and "alerts (snd (newWorkout e f s)) = alerts s"
    and "storage (snd (newWorkout e f s)) = storage s"
    by (simp_all add: newWorkout_def renderWorkout_def)
  show "renderWorkout Undefined (s\<lparr>workouts := workouts s @ [Undefined]\<rparr>)
      = (Threw TypeError, s\<lparr>workouts := workouts s @ [Undefined]\<rparr>)"
    by (simp add: renderWorkout_def)
next
  assume k: "(inputType f = ''running'' \<or> inputType f = ''cycling'') \<and> lmap s \<noteq> None"
  then obtain m where m: "lmap s = Some m" by auto
  show "fst (newWorkout e f s) = Returned"
  proof (cases "inputType f = ''running'' \<and>
           \<not> (validInputs [inputDistance f, inputDuration f, inputCadence f]
              \<and> allPositive [inputDistance f, inputDuration f, inputCadence f]) \<or>
         inputType f = ''cycling'' \<and>
           \<not> (validInputs [inputDistance f, inputDuration f, inputElevation f]
              \<and> allPositive [inputDistance f, inputDuration f])")
    case True
    with assms show ?thesis by (rule rejected_returns)
  next
    case False
    with k have "inputType f = ''running'' \<and> validInputs [inputDistance f, inputDuration f, inputCadence f]
           \<and> allPositive [inputDistance f, inputDuration f, inputCadence f] \<and>
           (if inputType f = ''running''
            then RunningObj (Running e c (inputDistance f) (inputDuration f) (inputCadence f))
            else CyclingObj (Cycling e c (inputDistance f) (inputDuration f) (inputElevation f)))
           = RunningObj (Running e c (inputDistance f) (inputDuration f) (inputCadence f)) \<or>
         inputType f = ''cycling'' \<and> validInputs [inputDistance f, inputDuration f, inputElevation f]
           \<and> allPositive [inputDistance f, inputDuration f] \<and>
           (if inputType f = ''running''
            then RunningObj (Running e c (inputDistance f) (inputDuration f) (inputCadence f))
            else CyclingObj (Cycling e c (inputDistance f) (inputDuration f) (inputElevation f)))
           = CyclingObj (Cycling e c (inputDistance f) (inputDuration f) (inputElevation f))"
      by auto
    with assms m show ?thesis by (rule accepted_returns(1))
  qed
qed

text \<open>The theorem at a swim and at a ride.\<close>

theorem unknown_type_appends_undefined_witness:
  "mapEvnt ready = Some lisbon \<and> inputType swim \<noteq> ''running'' \<and> inputType swim \<noteq> ''cycling'' \<and>
   newWorkout noon swim ready = (Threw TypeError, ready\<lparr>workouts := [Undefined]\<rparr>) \<and>
   inputType ride = ''cycling'' \<and> lmap ready \<noteq> None \<and>
   fst (newWorkout noon ride ready) = Returned"
proof -
  have a: "mapEvnt ready = Some lisbon" by (simp add: ready_eq)
  have b: "inputType swim \<noteq> ''running'' \<and> inputType swim \<noteq> ''cycling''"
    by (simp add: swim_def)
  have c: "(inputType ride = ''running'' \<or> inputType ride = ''cycling'') \<and> lmap ready \<noteq> None"
    by (simp add: ride_def ready_eq)
  from unknown_type_appends_undefined[OF a, of swim noon] b
  have "newWorkout noon swim ready
      = (Threw TypeError, ready\<lparr>workouts := workouts ready @ [Undefined]\<rparr>)"
    by blast
  moreover from unknown_type_appends_undefined[OF a, of ride noon] c
  have "fst (newWorkout noon ride ready) = Returned" by blast
  ultimately show ?thesis using a b c by (simp add: ready_eq ride_def)
qed

text \<open>
  Claim C9 as it is written covers every submission. Before the first click on the map
  \<open>#mapEvnt\<close> is undefined and the handler throws a TypeError when it reads \<open>latlng\<close>:
  a swim appends nothing to the store, and a run does not return.
\<close>

theorem submission_before_map_click_throws:
  "inputType swim \<noteq> ''running'' \<and> inputType swim \<noteq> ''cycling'' \<and>
   lmap opened \<noteq> None \<and> mapEvnt opened = None \<and>
   newWorkout noon swim opened = (Threw TypeError, opened) \<and>
   workouts (snd (newWorkout noon swim opened)) = [] \<and>
   inputType run = ''running'' \<and>
   fst (newWorkout noon run opened) = Threw TypeError"
  by (simp add: swim_def run_def opened_eq newWorkout_def)

text \<open>
  Claim C6, as the code has it. After a click on the map, the map being loaded, a cycling
  submission with a positive finite distance and duration is accepted with any finite
  elevation gain, negative and zero included: the handler returns without an alert and the
  store has a new Cycling with that elevation gain.
\<close>

theorem cycling_elevation_any_sign:
  assumes "inputType f = ''cycling''"
    and "inputDistance f = Fin d" and "0 < d" and "inputDuration f = Fin t" and "0 < t"
    and "inputElevation f = Fin el"
    and "mapEvnt s = Some c" and "lmap s = Some m"
  shows "fst (newWorkout e f s) = Returned \<and>
         alerts (snd (newWorkout e f s)) = alerts s \<and>
         workouts (snd (newWorkout e f s))
           = workouts s @ [CyclingObj (Cycling e c (Fin d) (Fin t) (Fin el))] \<and>
         elevationGain (Cycling e c (Fin d) (Fin t) (Fin el)) = Fin el"
proof -
  define w where "w = CyclingObj (Cycling e c (Fin d) (Fin t) (Fin el))"
  from assms(1-6) have acc:
    "inputType f = ''running'' \<and> validInputs [inputDistance f, inputDuration f, inputCadence f]
       \<and> allPositive [inputDistance f, inputDuration f, inputCadence f] \<and>
       w = RunningObj (Running e c (inputDistance f) (inputDuration f) (inputCadence f)) \<or>
     inputType f = ''cycling'' \<and> validInputs [inputDistance f, inputDuration f, inputElevation f]
       \<and> allPositive [inputDistance f, inputDuration f] \<and>
       w = CyclingObj (Cycling e c (inputDistance f) (inputDuration f) (inputElevation f))"
    by (simp add: w_def validInputs_def allPositive_def)
  note facts = accepted_returns[OF assms(7,8) acc]
  have "elevationGain (Cycling e c (Fin d) (Fin t) (Fin el)) = Fin el"
    by (simp add: Cycling_def Let_def)
  with facts(1-3) show ?thesis unfolding w_def by simp
qed

text \<open>The theorem at an elevation gain of \<open>-12\<close>.\<close>

theorem cycling_elevation_any_sign_witness:
  "inputType ride = ''cycling'' \<and> inputDistance ride = Fin 20 \<and> (0::rat) < 20 \<and>
   inputDuration ride = Fin 60 \<and> (0::rat) < 60 \<and> inputElevation ride = Fin (- 12) \<and>
   mapEvnt ready = Some lisbon \<and>
   fst (newWorkout noon ride ready) = Returned \<and>
   alerts (snd (newWorkout noon ride ready)) = [] \<and>
   workouts (snd (newWorkout noon ride ready))
     = [CyclingObj (Cycling noon lisbon (Fin 20) (Fin 60) (Fin (- 12)))] \<and>
   elevationGain (Cycling noon lisbon (Fin 20) (Fin 60) (Fin (- 12))) = Fin (- 12)"
proof -
  have a: "inputType ride = ''cycling''" and b: "inputDistance ride = Fin 20"
    and c: "inputDuration ride = Fin 60" and d: "inputElevation ride = Fin (- 12)"
    by (simp_all add: ride_def)
  have p: "(0::rat) < 20" and q: "(0::rat) < 60" by simp_all
  have m: "mapEvnt ready = Some lisbon"
    and l: "lmap ready = Some \<lparr>center = Arr [Num (fst lisbon), Num (snd lisbon)],
                              zoom = mapZoomLevel, markers = []\<rparr>"
    by (simp_all add: ready_eq)
  from cycling_elevation_any_sign[OF a b p c q d m l, of noon] a b c d m
  show ?thesis by (simp add: ready_eq)
qed


text \<open>
  Claim C6 as it is written covers every cycling submission. Before the first click on
  the map the ride with the elevation gain \<open>-12\<close> is not accepted: the handler throws a
  TypeError when it reads \<open>latlng\<close>, before it validates anything.
\<close>

theorem ride_before_map_click_throws:
  "inputType ride = ''cycling'' \<and> inputDistance ride = Fin 20 \<and> inputDuration ride = Fin 60 \<and>
   inputElevation ride = Fin (- 12) \<and> lmap opened \<noteq> None \<and> mapEvnt opened = None \<and>
   newWorkout noon ride opened = (Threw TypeError, opened) \<and>
   workouts (snd (newWorkout noon ride opened)) = []"
  by (simp add: ride_def opened_eq newWorkout_def)

lemma ident_Running [simp]: "ident (Running e c d t cad) = new_id e"
  by (simp add: Running_def Workout_def Let_def)

lemma ident_Cycling [simp]: "ident (Cycling e c d t el) = new_id e"
  by (simp add: Cycling_def Workout_def Let_def)

lemma get_id [simp]:
  "get (RunningObj r) ''id'' = Str (ident r)"
  "get (CyclingObj cy) ''id'' = Str (ident cy)"
  by (simp_all add: get_def)





lemma double_5_2_reduced: "to_double (26 / 5) = Fin (5854679515581645 / 2 ^ 50)"
  using double_5_2 by simp

lemma new_id_noon: "new_id noon = ''3707204711''"
  by (simp add: new_id_def noon_def show_int_step show_int_digit digit_def)

lemma new_id_later: "new_id later = ''3707204711''"
  by (simp add: new_id_def later_def show_int_step show_int_digit digit_def)

lemma run_accepted:
  "inputType run = ''running'' \<and> validInputs [inputDistance run, inputDuration run, inputCadence run]
     \<and> allPositive [inputDistance run, inputDuration run, inputCadence run] \<and>
     RunningObj (Running e c (to_double (52 / 10)) (Fin 24) (Fin 178))
       = RunningObj (Running e c (inputDistance run) (inputDuration run) (inputCadence run)) \<or>
   inputType run = ''cycling'' \<and> validInputs [inputDistance run, inputDuration run, inputElevation run]
     \<and> allPositive [inputDistance run, inputDuration run] \<and>
     RunningObj (Running e c (to_double (52 / 10)) (Fin 24) (Fin 178))
       = CyclingObj (Cycling e c (inputDistance run) (inputDuration run) (inputElevation run))"
  by (simp add: run_def validInputs_def allPositive_def double_5_2_reduced)

lemma again_facts:
  "mapEvnt again = Some lisbon"
  "lmap again \<noteq> None"
  "workouts again = [RunningObj (Running noon lisbon (to_double (52 / 10)) (Fin 24) (Fin 178))]"
proof -
  have m: "mapEvnt ready = Some lisbon"
    and l: "lmap ready = Some \<lparr>center = Arr [Num (fst lisbon), Num (snd lisbon)],
                              zoom = mapZoomLevel, markers = []\<rparr>"
    by (simp_all add: ready_eq)
  note facts = accepted_returns[OF m l run_accepted, of noon]
  show "mapEvnt again = Some lisbon" by (simp add: again_def showForm_def)
  show "lmap again \<noteq> None" using facts(7) by (simp add: again_def showForm_def)
  show "workouts again = [RunningObj (Running noon lisbon (to_double (52 / 10)) (Fin 24) (Fin 178))]"
    using facts(2) by (simp add: again_def showForm_def ready_eq)
qed

text \<open>
  Claim C5, as the code has it. Every submission that passes the validation appends its
  record to the store, whatever the store holds; the id of the record is the last ten
  digits of the sum of the clock and the random number.
\<close>

theorem push_without_id_check:
  assumes "mapEvnt s = Some c" and "lmap s = Some m"
    and "inputType f = ''running'' \<and> validInputs [inputDistance f, inputDuration f, inputCadence f]
           \<and> allPositive [inputDistance f, inputDuration f, inputCadence f] \<and>
           w = RunningObj (Running e c (inputDistance f) (inputDuration f) (inputCadence f)) \<or>
         inputType f = ''cycling'' \<and> validInputs [inputDistance f, inputDuration f, inputElevation f]
           \<and> allPositive [inputDistance f, inputDuration f] \<and>
           w = CyclingObj (Cycling e c (inputDistance f) (inputDuration f) (inputElevation f))"
  shows "fst (newWorkout e f s) = Returned \<and>
         workouts (snd (newWorkout e f s)) = workouts s @ [w] \<and>
         get w ''id'' = Str (new_id e)"
proof -
  from assms(3) have "get w ''id'' = Str (new_id e)" by auto
  with accepted_returns(1,2)[OF assms] show ?thesis by simp
qed

text \<open>The theorem at a second run, four seconds after the first.\<close>

theorem push_without_id_check_witness:
  "mapEvnt again = Some lisbon \<and> lmap again \<noteq> None \<and>
   inputType run = ''running'' \<and>
   validInputs [inputDistance run, inputDuration run, inputCadence run] \<and>
   allPositive [inputDistance run, inputDuration run, inputCadence run] \<and>
   fst (newWorkout later run again) = Returned \<and>
   workouts (snd (newWorkout later run again))
     = workouts again @ [RunningObj (Running later lisbon (to_double (52 / 10)) (Fin 24) (Fin 178))] \<and>
   get (RunningObj (Running later lisbon (to_double (52 / 10)) (Fin 24) (Fin 178))) ''id''
     = Str (new_id later)"
proof -
  obtain m where m: "lmap again = Some m" using again_facts(2) by auto
  from push_without_id_check[OF again_facts(1) m run_accepted, of later]
  show ?thesis using again_facts(1,2) run_accepted by simp
qed

text \<open>
  Claim C5 as it is written has the second record refused. The clock of the second run is
  4000 ms later and its random number 4000 less: both records have the id
  \<open>3707204711\<close>, and both are in the store.
\<close>

theorem two_records_one_id:
  "fst (newWorkout later run again) = Returned \<and>
   map (\<lambda>w. get w ''id'') (workouts again) = [Str ''3707204711''] \<and>
   map (\<lambda>w. get w ''id'') (workouts (snd (newWorkout later run again)))
     = [Str ''3707204711'', Str ''3707204711'']"
proof -
  obtain m where m: "lmap again = Some m" using again_facts(2) by auto
  note facts = accepted_returns[OF again_facts(1) m run_accepted, of later]
  from facts(1,2) show ?thesis
    by (simp add: again_facts(3) new_id_noon new_id_later)
qed


section \<open>Storing and loading\<close>

lemma renderWorkout_frame:
  "workouts (snd (renderWorkout w s)) = workouts s"
  "storage (snd (renderWorkout w s)) = storage s"
  by (simp_all add: renderWorkout_def)

lemma forEach_renderWorkout_frame:
  "workouts (snd (forEach renderWorkout ws s)) = workouts s \<and>
   storage (snd (forEach renderWorkout ws s)) = storage s"
proof (induction ws arbitrary: s)
  case Nil
  show ?case by simp
next
  case (Cons w ws)
  show ?case
  proof (cases "renderWorkout w s")
    case (Pair c s')
    with renderWorkout_frame[of w s] have s': "workouts s' = workouts s" "storage s' = storage s"
      by simp_all
    show ?thesis
    proof (cases c)
      case Returned
      with Pair Cons[of s'] s' show ?thesis by simp
    next
      case (Threw e)
      with Pair s' show ?thesis by simp
    qed
  qed
qed

lemma workouts_App: "workouts (snd (App (Some js))) = of_json_elems js"
  by (simp add: App_def getLocalStorage_def Let_def forEach_renderWorkout_frame)

lemma storage_setLocalStorage:
  "storage (snd (setLocalStorage s)) = Some (to_json_elems (workouts s))"
  by (simp add: setLocalStorage_def)

lemma length_to_json_elems [simp]: "length (to_json_elems vs) = length vs"
  by (induction vs) simp_all

lemma length_of_json_elems [simp]: "length (of_json_elems js) = length js"
  by (induction js) simp_all

lemma nth_to_json_elems:
  "i < length vs \<Longrightarrow>
   to_json_elems vs ! i = (case to_json (vs ! i) of None \<Rightarrow> JNull | Some j \<Rightarrow> j)"
  by (induction vs arbitrary: i) (simp_all add: nth_Cons')

lemma nth_of_json_elems: "i < length js \<Longrightarrow> of_json_elems js ! i = of_json (js ! i)"
  by (induction js arbitrary: i) (simp_all add: nth_Cons')

lemma plain_round_trip:
  "(plain v \<longrightarrow> (\<exists>j. to_json v = Some j \<and> of_json j = v))"
  "(plain_elems vs \<longrightarrow> of_json_elems (to_json_elems vs) = vs)"
  "(plain_props ps \<longrightarrow> of_json_props (to_json_props ps) = ps)"
proof (induction v and vs and ps rule: plain_plain_elems_plain_props.induct)
  case (3 n)
  then show ?case by (cases n) simp_all
qed auto

lemma plain_of_json:
  "plain (of_json j)" "plain_elems (of_json_elems js)" "plain_props (of_json_props ps)"
  by (induction j and js and ps rule: of_json_of_json_elems_of_json_props.induct) simp_all

lemma finite_num_json: "isFinite n \<Longrightarrow> of_json (num_json n) = Num n"
  by (cases n) simp_all

lemma record_round_trip:
  assumes "workout_record v" and "k \<noteq> ''date''"
  shows "\<exists>j. to_json v = Some j \<and> get (of_json j) k = get v k \<and> workout_record (of_json j)"
proof (cases v)
  case (Obj ps)
  with assms(1) have "plain v" by simp
  with plain_round_trip(1)[of v] obtain j where "to_json v = Some j" "of_json j = v" by auto
  with assms(1) show ?thesis by simp
next
  case (RunningObj r)
  with assms show ?thesis
    by (simp add: get_def finite_num_json plain_of_json)
next
  case (CyclingObj c)
  with assms show ?thesis
    by (simp add: get_def finite_num_json plain_of_json)
qed (use assms in simp_all)

text \<open>
  The records of a store are workout records: those that \<open>_newWorkout\<close> appends, the
  coordinates of the click being finite, and the objects that the constructor loads.
\<close>

lemma appended_is_workout_record:
  assumes "isFinite (fst c)" and "isFinite (snd c)"
    and "inputType f = ''running'' \<and> validInputs [inputDistance f, inputDuration f, inputCadence f]
           \<and> allPositive [inputDistance f, inputDuration f, inputCadence f] \<and>
           w = RunningObj (Running e c (inputDistance f) (inputDuration f) (inputCadence f)) \<or>
         inputType f = ''cycling'' \<and> validInputs [inputDistance f, inputDuration f, inputElevation f]
           \<and> allPositive [inputDistance f, inputDuration f] \<and>
           w = CyclingObj (Cycling e c (inputDistance f) (inputDuration f) (inputElevation f))"
  shows "workout_record w"
  using assms
  by (auto simp: validInputs_def Running_def Cycling_def Workout_def Let_def)

lemma loaded_is_workout_record: "workout_record (of_json (JObj ps))"
  by (simp add: plain_of_json)

lemma workout_record_not_nullish: "workout_record w \<Longrightarrow> \<not> nullish w"
  by (cases w) simp_all

lemma forEach_renderWorkout_returns:
  "\<forall>w \<in> set ws. \<not> nullish w \<Longrightarrow> fst (forEach renderWorkout ws s) = Returned"
proof (induction ws arbitrary: s)
  case Nil
  show ?case by simp
next
  case (Cons w ws)
  then have "\<not> nullish w" and rest: "\<forall>w \<in> set ws. \<not> nullish w" by simp_all
  then obtain s' where "renderWorkout w s = (Returned, s')" by (simp add: renderWorkout_def)
  with Cons.IH[OF rest, of s'] show ?case by simp
qed


text \<open>
  Claim C3, as the code has it. Let every entry of the store be a workout record, and let
  the store be written by \<open>_setLocalStorage\<close> and loaded by the constructor of the next
  session. The constructor returns, and the loaded store has as many entries as the
  original and, at every place, a workout record whose properties, \<open>date\<close> apart (a Date
  is stored as a string), have the values of the original: id, type, coordinates,
  distance, duration, cadence or elevation gain, clicks, pace or speed, and description.
\<close>

theorem serialize_load_round_trip:
  assumes "\<forall>w \<in> set (workouts s). workout_record w"
  shows "fst (App (storage (snd (setLocalStorage s)))) = Returned \<and>
         length (workouts (snd (App (storage (snd (setLocalStorage s)))))) = length (workouts s) \<and>
         (\<forall>i < length (workouts s).
            workout_record (workouts (snd (App (storage (snd (setLocalStorage s))))) ! i) \<and>
            (\<forall>k. k \<noteq> ''date'' \<longrightarrow>
               get (workouts (snd (App (storage (snd (setLocalStorage s))))) ! i) k
                 = get (workouts s ! i) k))"
proof -
  define ws where "ws = of_json_elems (to_json_elems (workouts s))"
  have w: "workouts (snd (App (storage (snd (setLocalStorage s))))) = ws"
    unfolding ws_def by (simp only: storage_setLocalStorage workouts_App)
  have len: "length ws = length (workouts s)" by (simp add: ws_def)
  have place: "workout_record (ws ! i) \<and> (\<forall>k. k \<noteq> ''date'' \<longrightarrow> get (ws ! i) k = get (workouts s ! i) k)"
    if i: "i < length (workouts s)" for i
  proof -
    from i assms have r: "workout_record (workouts s ! i)" by simp
    from record_round_trip[OF r, of "''type''"]
    obtain j where j: "to_json (workouts s ! i) = Some j" by auto
    have nth: "ws ! i = of_json j"
      unfolding ws_def using i j by (simp add: nth_of_json_elems nth_to_json_elems)
    have "workout_record (of_json j)"
      using record_round_trip[OF r, of "''type''"] j by auto
    moreover have "\<forall>k. k \<noteq> ''date'' \<longrightarrow> get (of_json j) k = get (workouts s ! i) k"
      using record_round_trip[OF r] j by auto
    ultimately show ?thesis unfolding nth by simp
  qed
  have "\<forall>w \<in> set ws. \<not> nullish w"
  proof
    fix w assume "w \<in> set ws"
    then obtain i where "i < length ws" and "w = ws ! i" by (auto simp: in_set_conv_nth)
    with place[of i] len show "\<not> nullish w" by (simp add: workout_record_not_nullish)
  qed
  then have "fst (App (storage (snd (setLocalStorage s)))) = Returned"
    unfolding ws_def
    by (simp add: storage_setLocalStorage App_def getLocalStorage_def Let_def
        forEach_renderWorkout_returns)
  with w len place show ?thesis by simp
qed



lemma isFinite_to_double: "\<bar>q\<bar> < 2 ^ 1024 - 2 ^ 970 \<Longrightarrow> isFinite (to_double q)"
  by (auto simp: to_double_def round_pos_def Let_def abs_if split: if_splits)

lemma isFinite_lisbon: "isFinite (fst lisbon)" "isFinite (snd lisbon)"
  by (simp_all add: lisbon_def isFinite_to_double)

lemma ride_accepted:
  "inputType ride = ''running'' \<and> validInputs [inputDistance ride, inputDuration ride, inputCadence ride]
     \<and> allPositive [inputDistance ride, inputDuration ride, inputCadence ride] \<and>
     CyclingObj (Cycling e c (Fin 20) (Fin 60) (Fin (- 12)))
       = RunningObj (Running e c (inputDistance ride) (inputDuration ride) (inputCadence ride)) \<or>
   inputType ride = ''cycling'' \<and> validInputs [inputDistance ride, inputDuration ride, inputElevation ride]
     \<and> allPositive [inputDistance ride, inputDuration ride] \<and>
     CyclingObj (Cycling e c (Fin 20) (Fin 60) (Fin (- 12)))
       = CyclingObj (Cycling e c (inputDistance ride) (inputDuration ride) (inputElevation ride))"
  by (simp add: ride_def validInputs_def allPositive_def)

lemma new_id_evening: "new_id evening = ''3730600052''"
  by (simp add: new_id_def evening_def show_int_step show_int_digit digit_def)

lemma workouts_two:
  "workouts two = [RunningObj (Running noon lisbon (to_double (52 / 10)) (Fin 24) (Fin 178)),
                   CyclingObj (Cycling evening lisbon (Fin 20) (Fin 60) (Fin (- 12)))]"
proof -
  obtain m where m: "lmap again = Some m" using again_facts(2) by auto
  from accepted_returns(2)[OF again_facts(1) m ride_accepted, of evening]
  show ?thesis by (simp add: two_def again_facts(3))
qed

lemma Cycling_fields [simp]:
  "clicks (Cycling e c d t el) = Fin 0" "coords (Cycling e c d t el) = c"
  "distance (Cycling e c d t el) = d" "duration (Cycling e c d t el) = t"
  "elevationGain (Cycling e c d t el) = el"
  by (simp_all add: Cycling_def Workout_def Let_def)

lemma Running_fields [simp]:
  "clicks (Running e c d t cad) = Fin 0" "coords (Running e c d t cad) = c"
  "distance (Running e c d t cad) = d" "duration (Running e c d t cad) = t"
  "cadence (Running e c d t cad) = cad"
  by (simp_all add: Running_def Workout_def Let_def)

lemma list_all_two: "list_all workout_record (workouts two)"
  by (simp add: workouts_two isFinite_lisbon double_5_2_reduced)

text \<open>The theorem at two records created in sequence, a run and a ride.\<close>

theorem serialize_load_round_trip_witness:
  "list_all workout_record (workouts two) \<and>
   fst (App (storage (snd (setLocalStorage two)))) = Returned \<and>
   length (workouts (snd (App (storage (snd (setLocalStorage two)))))) = 2 \<and>
   get (workouts (snd (App (storage (snd (setLocalStorage two))))) ! 0) ''type'' = Str ''running'' \<and>
   get (workouts (snd (App (storage (snd (setLocalStorage two))))) ! 1) ''type'' = Str ''cycling'' \<and>
   get (workouts (snd (App (storage (snd (setLocalStorage two))))) ! 1) ''id''
     = Str ''3730600052'' \<and>
   get (workouts (snd (App (storage (snd (setLocalStorage two))))) ! 1) ''coords''
     = Arr [Num (fst lisbon), Num (snd lisbon)] \<and>
   get (workouts (snd (App (storage (snd (setLocalStorage two))))) ! 1) ''elevationGain''
     = Num (Fin (- 12))"
proof -
  have a: "\<forall>w \<in> set (workouts two). workout_record w"
    using list_all_two by (simp add: list_all_iff)
  have l: "length (workouts two) = 2" by (simp add: workouts_two)
  from serialize_load_round_trip[OF a]
  have ret: "fst (App (storage (snd (setLocalStorage two)))) = Returned"
    and len: "length (workouts (snd (App (storage (snd (setLocalStorage two))))))
      = length (workouts two)"
    and eq: "\<And>i k. i < length (workouts two) \<Longrightarrow> k \<noteq> ''date'' \<Longrightarrow>
      get (workouts (snd (App (storage (snd (setLocalStorage two))))) ! i) k
        = get (workouts two ! i) k"
    by blast+
  have "get (workouts (snd (App (storage (snd (setLocalStorage two))))) ! 0) ''type''
      = Str ''running''"
    by (subst eq) (simp_all add: workouts_two get_def)
  moreover have "get (workouts (snd (App (storage (snd (setLocalStorage two))))) ! 1) ''type''
      = Str ''cycling''"
    by (subst eq) (simp_all add: workouts_two get_def)
  moreover have "get (workouts (snd (App (storage (snd (setLocalStorage two))))) ! 1) ''id''
      = Str ''3730600052''"
    by (subst eq) (simp_all add: workouts_two new_id_evening)
  moreover have "get (workouts (snd (App (storage (snd (setLocalStorage two))))) ! 1) ''coords''
      = Arr [Num (fst lisbon), Num (snd lisbon)]"
    by (subst eq) (simp_all add: workouts_two get_def)
  moreover have "get (workouts (snd (App (storage (snd (setLocalStorage two))))) ! 1)
      ''elevationGain'' = Num (Fin (- 12))"
    by (subst eq) (simp_all add: workouts_two get_def)
  ultimately show ?thesis using list_all_two ret len l by simp
qed

lemma after_swim:
  "newWorkout noon swim ready = (Threw TypeError, ready\<lparr>workouts := [Undefined]\<rparr>)"
  by (simp add: swim_def ready_eq newWorkout_def renderWorkout_def)

lemma workouts_mixed:
  "workouts mixed
     = [Undefined, RunningObj (Running evening lisbon (to_double (52 / 10)) (Fin 24) (Fin 178))]"
proof -
  have m: "mapEvnt (ready\<lparr>workouts := [Undefined]\<rparr>) = Some lisbon"
    and l: "lmap (ready\<lparr>workouts := [Undefined]\<rparr>)
              = Some \<lparr>center = Arr [Num (fst lisbon), Num (snd lisbon)],
                      zoom = mapZoomLevel, markers = []\<rparr>"
    by (simp_all add: ready_eq)
  from accepted_returns(2)[OF m l run_accepted, of evening]
  show ?thesis by (simp add: mixed_def after_swim)
qed

text \<open>
  Claim C3 as it is written covers every store. After a swim and a run the store is
  \<open>undefined\<close> and a Running: it is stored as \<open>null\<close> and an object, and the constructor
  of the next session throws a TypeError at the \<open>null\<close> before it renders any entry.
\<close>

theorem load_of_undefined_entry_throws:
  "workouts mixed
     = [Undefined, RunningObj (Running evening lisbon (to_double (52 / 10)) (Fin 24) (Fin 178))] \<and>
   workout_record (workouts mixed ! 1) \<and>
   fst (App (storage (snd (setLocalStorage mixed)))) = Threw TypeError \<and>
   workouts (snd (App (storage (snd (setLocalStorage mixed))))) ! 0 = Null \<and>
   entries (snd (App (storage (snd (setLocalStorage mixed))))) = []"
proof -
  have "workout_record (workouts mixed ! 1)"
    by (simp add: workouts_mixed isFinite_lisbon double_5_2_reduced)
  moreover have "fst (App (storage (snd (setLocalStorage mixed)))) = Threw TypeError"
    and "workouts (snd (App (storage (snd (setLocalStorage mixed))))) ! 0 = Null"
    and "entries (snd (App (storage (snd (setLocalStorage mixed))))) = []"
    by (simp_all add: storage_setLocalStorage workouts_mixed App_def getLocalStorage_def
        renderWorkout_def Let_def del: to_json.simps(9))
  ultimately show ?thesis using workouts_mixed by simp
qed

lemma call_click_of_json: "call_click (of_json j) = Inl TypeError"
  by (cases j) simp_all

lemma call_click_loaded: "w \<in> set (of_json_elems js) \<Longrightarrow> call_click w = Inl TypeError"
  by (induction js) (auto simp: call_click_of_json)

lemma map_of_of_json_props: "map_of (of_json_props ps) k = map_option of_json (map_of ps k)"
  by (induction ps) auto

lemma get_of_json_JObj:
  "get (of_json (JObj ps)) k = (case map_of ps k of Some j \<Rightarrow> of_json j | None \<Rightarrow> Undefined)"
  by (simp add: get_def map_of_of_json_props split: option.splits)

lemma find_index_Some:
  "find_index ws i = Inr (Some n) \<Longrightarrow>
   n < length ws \<and> \<not> nullish (ws ! n) \<and> get (ws ! n) ''id'' = Str i"
proof (induction ws arbitrary: n)
  case Nil
  then show ?case by simp
next
  case (Cons w ws)
  show ?case
  proof (cases "get w ''id'' = Str i")
    case True
    with Cons.prems show ?thesis by (simp split: if_splits)
  next
    case False
    with Cons.prems obtain n' where "find_index ws i = Inr (Some n')" and "n = Suc n'"
      by (auto split: if_splits sum.splits option.splits)
    with Cons.IH[of n'] show ?thesis by simp
  qed
qed

lemma find_index_absent:
  "\<forall>w \<in> set ws. \<not> nullish w \<and> get w ''id'' \<noteq> Str i \<Longrightarrow> find_index ws i = Inr None"
  by (induction ws) simp_all

lemma find_index_first:
  "n < length ws \<Longrightarrow> \<not> nullish (ws ! n) \<Longrightarrow> get (ws ! n) ''id'' = Str i \<Longrightarrow>
   \<forall>m < n. \<not> nullish (ws ! m) \<and> get (ws ! m) ''id'' \<noteq> Str i \<Longrightarrow>
   find_index ws i = Inr (Some n)"
proof (induction ws arbitrary: n)
  case Nil
  then show ?case by simp
next
  case (Cons w ws)
  show ?case
  proof (cases n)
    case 0
    with Cons.prems show ?thesis by simp
  next
    case (Suc n')
    with Cons.prems have w: "\<not> nullish w \<and> get w ''id'' \<noteq> Str i" by fastforce
    from Suc Cons.prems have "\<forall>m < n'. \<not> nullish (ws ! m) \<and> get (ws ! m) ''id'' \<noteq> Str i"
      by fastforce
    with Suc Cons.prems Cons.IH[of n'] have "find_index ws i = Inr (Some n')" by simp
    with w Suc show ?thesis by simp
  qed
qed

lemma moveToPopup_workouts_loaded:
  assumes "\<forall>w \<in> set (workouts s). call_click w = Inl TypeError"
  shows "workouts (snd (moveToPopup target s)) = workouts s"
proof (cases target)
  case None
  then show ?thesis by (simp add: moveToPopup_def)
next
  case (Some i)
  show ?thesis
  proof (cases "find_index (workouts s) i")
    case (Inl e)
    with Some show ?thesis by (simp add: moveToPopup_def)
  next
    case (Inr found)
    show ?thesis
    proof (cases "lmap s")
      case None
      with Some Inr show ?thesis by (simp add: moveToPopup_def)
    next
      case (Some m)
      note m = this
      show ?thesis
      proof (cases found)
        case None
        with \<open>target = Some i\<close> Inr m show ?thesis by (simp add: moveToPopup_def)
      next
        case (Some n)
        have "n < length (workouts s)" using find_index_Some[of "workouts s" i n] Inr Some by simp
        with assms have "call_click (workouts s ! n) = Inl TypeError" by simp
        with \<open>target = Some i\<close> Inr m Some show ?thesis by (simp add: moveToPopup_def Let_def)
      qed
    qed
  qed
qed


lemma to_json_instance_metric:
  "to_json (RunningObj r) = Some j \<Longrightarrow>
     get (of_json j) ''pace'' = Str (pace r) \<and> get (of_json j) ''description'' = Str (description r)"
  "to_json (CyclingObj cy) = Some j \<Longrightarrow>
     get (of_json j) ''speed'' = Str (speed cy) \<and> get (of_json j) ''description'' = Str (cdescription cy)"
  by (auto simp: get_def)

text \<open>
  Claim C8. What the constructor loads is what \<open>JSON.parse\<close> built from the stored item:
  each property of a loaded record is the stored one, and the pace or speed and the
  description of a record stored from an instance are the strings that instance held,
  whatever its distance and duration. No loaded entry is an instance of Running or Cycling:
  no constructor runs, \<open>click()\<close> on a loaded entry throws a TypeError, and no click on
  the list changes the loaded store.
\<close>

theorem loaded_records_are_plain:
  "workouts (snd (App (Some js))) = of_json_elems js \<and>
   (\<forall>w \<in> set (workouts (snd (App (Some js)))). call_click w = Inl TypeError) \<and>
   workouts (snd (moveToPopup target (snd (App (Some js))))) = of_json_elems js \<and>
   (\<forall>i ps k. i < length js \<and> js ! i = JObj ps \<longrightarrow>
      get (workouts (snd (App (Some js))) ! i) k
        = (case map_of ps k of Some j \<Rightarrow> of_json j | None \<Rightarrow> Undefined)) \<and>
   (\<forall>ws i r. js = to_json_elems ws \<and> i < length ws \<and> ws ! i = RunningObj r \<longrightarrow>
      get (workouts (snd (App (Some js))) ! i) ''pace'' = Str (pace r) \<and>
      get (workouts (snd (App (Some js))) ! i) ''description'' = Str (description r)) \<and>
   (\<forall>ws i cy. js = to_json_elems ws \<and> i < length ws \<and> ws ! i = CyclingObj cy \<longrightarrow>
      get (workouts (snd (App (Some js))) ! i) ''speed'' = Str (speed cy) \<and>
      get (workouts (snd (App (Some js))) ! i) ''description'' = Str (cdescription cy))"
proof (intro conjI allI impI ballI)
  show w: "workouts (snd (App (Some js))) = of_json_elems js" by (rule workouts_App)
  show c: "call_click w = Inl TypeError" if "w \<in> set (workouts (snd (App (Some js))))" for w
    using that unfolding w by (rule call_click_loaded)
  have "workouts (snd (moveToPopup target (snd (App (Some js))))) = workouts (snd (App (Some js)))"
    by (rule moveToPopup_workouts_loaded) (simp add: c)
  then show "workouts (snd (moveToPopup target (snd (App (Some js))))) = of_json_elems js"
    by (simp only: w)
next
  fix i ps k assume "i < length js \<and> js ! i = JObj ps"
  then show "get (workouts (snd (App (Some js))) ! i) k
      = (case map_of ps k of Some j \<Rightarrow> of_json j | None \<Rightarrow> Undefined)"
    by (simp add: workouts_App nth_of_json_elems get_of_json_JObj del: of_json.simps)
next
  fix ws i r assume a: "js = to_json_elems ws \<and> i < length ws \<and> ws ! i = RunningObj r"
  then obtain j where j: "to_json (RunningObj r) = Some j" by simp
  with a have "workouts (snd (App (Some js))) ! i = of_json j"
    by (simp add: workouts_App nth_of_json_elems nth_to_json_elems del: to_json.simps)
  with to_json_instance_metric(1)[OF j]
  show "get (workouts (snd (App (Some js))) ! i) ''pace'' = Str (pace r)"
    and "get (workouts (snd (App (Some js))) ! i) ''description'' = Str (description r)"
    by simp_all
next
  fix ws i cy assume a: "js = to_json_elems ws \<and> i < length ws \<and> ws ! i = CyclingObj cy"
  then obtain j where j: "to_json (CyclingObj cy) = Some j" by simp
  with a have "workouts (snd (App (Some js))) ! i = of_json j"
    by (simp add: workouts_App nth_of_json_elems nth_to_json_elems del: to_json.simps)
  with to_json_instance_metric(2)[OF j]
  show "get (workouts (snd (App (Some js))) ! i) ''speed'' = Str (speed cy)"
    and "get (workouts (snd (App (Some js))) ! i) ''description'' = Str (cdescription cy)"
    by simp_all
qed


lemma storage_two: "storage two = Some (to_json_elems (workouts two))"
proof -
  obtain m where m: "lmap again = Some m" using again_facts(2) by auto
  from accepted_returns(2,4)[OF again_facts(1) m ride_accepted, of evening]
  show ?thesis by (simp add: two_def)
qed

text \<open>The theorem at the stored item of two records, a run and a ride.\<close>

theorem loaded_records_are_plain_witness:
  "storage two = Some (to_json_elems (workouts two)) \<and> 0 < length (workouts two) \<and>
   workouts two ! 0 = RunningObj (Running noon lisbon (to_double (52 / 10)) (Fin 24) (Fin 178)) \<and>
   workouts (snd (App (storage two))) ! 0 \<in> set (workouts (snd (App (storage two)))) \<and>
   call_click (workouts (snd (App (storage two))) ! 0) = Inl TypeError \<and>
   get (workouts (snd (App (storage two))) ! 0) ''pace'' = Str ''4.6'' \<and>
   (\<exists>ps. to_json_elems (workouts two) ! 0 = JObj ps \<and>
      get (workouts (snd (App (storage two))) ! 0) ''cadence''
        = (case map_of ps ''cadence'' of Some j \<Rightarrow> of_json j | None \<Rightarrow> Undefined)) \<and>
   1 < length (workouts two) \<and>
   workouts two ! 1 = CyclingObj (Cycling evening lisbon (Fin 20) (Fin 60) (Fin (- 12))) \<and>
   get (workouts (snd (App (storage two))) ! 1) ''speed'' = Str ''20.0'' \<and>
   workouts (snd (moveToPopup (Some ''3707204711'') (snd (App (storage two)))))
     = workouts (snd (App (storage two)))"
proof -
  define js where "js = to_json_elems (workouts two)"
  define r where "r = Running noon lisbon (to_double (52 / 10)) (Fin 24) (Fin 178)"
  define cy where "cy = Cycling evening lisbon (Fin 20) (Fin 60) (Fin (- 12))"
  have st: "storage two = Some js" by (simp add: js_def storage_two)
  have ws: "workouts two = [RunningObj r, CyclingObj cy]" by (simp add: workouts_two r_def cy_def)
  note inst = loaded_records_are_plain[of js "Some ''3707204711''"]
  from inst have w: "workouts (snd (App (Some js))) = of_json_elems js" by blast
  have l: "length js = 2" by (simp add: js_def ws)
  have mem: "workouts (snd (App (Some js))) ! 0 \<in> set (workouts (snd (App (Some js))))"
    unfolding w by (rule nth_mem) (simp add: l)
  with inst have click: "call_click (workouts (snd (App (Some js))) ! 0) = Inl TypeError"
    by blast
  have h0: "js = to_json_elems (workouts two) \<and> 0 < length (workouts two) \<and>
      workouts two ! 0 = RunningObj r"
    by (simp add: js_def ws)
  with inst have "get (workouts (snd (App (Some js))) ! 0) ''pace'' = Str (pace r)" by blast
  then have p: "get (workouts (snd (App (Some js))) ! 0) ''pace'' = Str ''4.6''"
    by (simp only: r_def pace_Running scenario_pace)
  have h1: "js = to_json_elems (workouts two) \<and> 1 < length (workouts two) \<and>
      workouts two ! 1 = CyclingObj cy"
    by (simp add: js_def ws)
  with inst have "get (workouts (snd (App (Some js))) ! 1) ''speed'' = Str (speed cy)" by blast
  moreover have "speed cy = ''20.0''"
  proof -
    have "toFixed 1 (Fin 20) = decimal1 \<lfloor>(20::rat) * 10 + 1 / 2\<rfloor>"
      by (rule toFixed1_decimal1) simp_all
    moreover have "\<lfloor>(20::rat) * 10 + 1 / 2\<rfloor> = 200" by (rule floor_unique) simp_all
    moreover have "decimal1 200 = ''20.0''"
      by (simp add: decimal1_def show_int_digit show_int_step digit_def)
    moreover have "speed cy = toFixed 1 (Fin 20)"
      unfolding cy_def speed_Cycling by (simp add: to_double_numeral to_double_1)
    ultimately show ?thesis by simp
  qed
  ultimately have sp: "get (workouts (snd (App (Some js))) ! 1) ''speed'' = Str ''20.0''" by simp
  obtain ps where ps: "js ! 0 = JObj ps" by (simp add: js_def ws)
  with l have "0 < length js \<and> js ! 0 = JObj ps" by simp
  with inst have "get (workouts (snd (App (Some js))) ! 0) ''cadence''
      = (case map_of ps ''cadence'' of Some j \<Rightarrow> of_json j | None \<Rightarrow> Undefined)"
    by blast
  with ps have ex: "\<exists>ps. js ! 0 = JObj ps \<and> get (workouts (snd (App (Some js))) ! 0) ''cadence''
      = (case map_of ps ''cadence'' of Some j \<Rightarrow> of_json j | None \<Rightarrow> Undefined)"
    by blast
  from inst have mv: "workouts (snd (moveToPopup (Some ''3707204711'') (snd (App (Some js)))))
      = workouts (snd (App (Some js)))"
    unfolding w by blast
  show ?thesis
    unfolding st using mem click p sp ex mv h0 h1
    unfolding js_def[symmetric] r_def[symmetric] cy_def[symmetric] by blast
qed


section \<open>Clicking the list\<close>

text \<open>
  Claim C4, as the code has it. In a store of records none of which has the id, \<open>find\<close>
  returns \<open>undefined\<close> without throwing, and \<open>_moveToPopup\<close> then throws a TypeError, at
  \<open>workout.coords\<close> or before it at the map, and changes nothing.
\<close>

theorem absent_id_lookup:
  assumes "\<forall>w \<in> set (workouts s). \<not> nullish w \<and> get w ''id'' \<noteq> Str i"
  shows "find_index (workouts s) i = Inr None \<and> moveToPopup (Some i) s = (Threw TypeError, s)"
proof -
  from assms have "find_index (workouts s) i = Inr None" by (rule find_index_absent)
  then show ?thesis by (simp add: moveToPopup_def split: option.splits)
qed

text \<open>The theorem at a store of one record and another id.\<close>

theorem absent_id_lookup_witness:
  "map (\<lambda>w. get w ''id'') (workouts again) = [Str ''3707204711''] \<and>
   find_index (workouts again) ''0000000000'' = Inr None \<and>
   moveToPopup (Some ''0000000000'') again = (Threw TypeError, again)"
proof -
  have a: "\<forall>w \<in> set (workouts again). \<not> nullish w \<and> get w ''id'' \<noteq> Str ''0000000000''"
    by (simp add: again_facts(3) new_id_noon)
  from absent_id_lookup[OF a] show ?thesis by (simp add: again_facts(3) new_id_noon)
qed

text \<open>
  Claim C4 as it is written has the activation do nothing and not throw. On the empty
  store, with the map loaded, it throws.
\<close>

theorem activate_absent_throws:
  "workouts ready = [] \<and> lmap ready \<noteq> None \<and>
   find_index (workouts ready) ''3707204711'' = Inr None \<and>
   moveToPopup (Some ''3707204711'') ready = (Threw TypeError, ready)"
  by (simp add: ready_eq moveToPopup_def)

lemma get_click:
  "get (RunningObj (click r)) k = (if k = ''clicks'' then Num (js_add (clicks r) (Fin 1))
                                   else get (RunningObj r) k)"
  "get (CyclingObj (click cy)) k = (if k = ''clicks'' then Num (js_add (clicks cy) (Fin 1))
                                    else get (CyclingObj cy) k)"
  by (simp_all add: get_def click_def)

lemma js_add_one:
  assumes "c < 2 ^ 53"
  shows "js_add (Fin (of_nat c)) (Fin 1) = Fin (of_nat c + 1)"
proof -
  have "round_pos (of_nat (Suc c)) = Fin (of_nat (Suc c))"
    using assms by (intro round_pos_nat) simp_all
  moreover have "(of_nat c :: rat) + 1 \<noteq> 0" using of_nat_0_le_iff[of c, where 'a = rat] by linarith
  moreover have "(0 :: rat) < of_nat c + 1" using of_nat_0_le_iff[of c, where 'a = rat] by linarith
  ultimately show ?thesis by (simp add: to_double_def add.commute)
qed

text \<open>
  Claim C10, as the code has it. Let the record at a place of the store be an instance of
  Running or Cycling and the first record with its id, let its clicks be a natural number
  below \<open>2\<^sup>5\<^sup>3\<close>, and let the map be loaded. A click on its list entry moves the map to the
  record, adds one to its clicks, and changes no other property of the record, no other
  record and nothing else of the session.
\<close>

theorem click_counts_once:
  assumes "n < length (workouts s)"
    and "(\<exists>r. workouts s ! n = RunningObj r) \<or> (\<exists>cy. workouts s ! n = CyclingObj cy)"
    and "get (workouts s ! n) ''id'' = Str i"
    and "\<forall>m < n. \<not> nullish (workouts s ! m) \<and> get (workouts s ! m) ''id'' \<noteq> Str i"
    and "get (workouts s ! n) ''clicks'' = Num (Fin (of_nat c))" and "c < 2 ^ 53"
    and "lmap s = Some m"
  shows "\<exists>w. moveToPopup (Some i) s
            = (Returned, s\<lparr>lmap := Some (m\<lparr>center := get (workouts s ! n) ''coords'',
                                            zoom := mapZoomLevel\<rparr>),
                           workouts := (workouts s)[n := w]\<rparr>) \<and>
           get w ''clicks'' = Num (Fin (of_nat c + 1)) \<and>
           (\<forall>k. k \<noteq> ''clicks'' \<longrightarrow> get w k = get (workouts s ! n) k)"
proof -
  from assms(2) have nn: "\<not> nullish (workouts s ! n)" by auto
  have fi: "find_index (workouts s) i = Inr (Some n)"
    using assms(1) nn assms(3,4) by (rule find_index_first)
  from assms(2) show ?thesis
  proof (elim disjE exE)
    fix r assume r: "workouts s ! n = RunningObj r"
    with assms(5) have "clicks r = Fin (of_nat c)" by (simp add: get_def)
    with js_add_one[OF assms(6)] have "js_add (clicks r) (Fin 1) = Fin (of_nat c + 1)" by simp
    then have "get (RunningObj (click r)) ''clicks'' = Num (Fin (of_nat c + 1))"
      and "\<forall>k. k \<noteq> ''clicks'' \<longrightarrow> get (RunningObj (click r)) k = get (workouts s ! n) k"
      by (simp_all add: get_click r)
    moreover have "moveToPopup (Some i) s
        = (Returned, s\<lparr>lmap := Some (m\<lparr>center := get (workouts s ! n) ''coords'',
                                        zoom := mapZoomLevel\<rparr>),
                       workouts := (workouts s)[n := RunningObj (click r)]\<rparr>)"
      using fi assms(7) r by (simp add: moveToPopup_def Let_def)
    ultimately show ?thesis by blast
  next
    fix cy assume cy: "workouts s ! n = CyclingObj cy"
    with assms(5) have "clicks cy = Fin (of_nat c)" by (simp add: get_def)
    with js_add_one[OF assms(6)] have "js_add (clicks cy) (Fin 1) = Fin (of_nat c + 1)" by simp
    then have "get (CyclingObj (click cy)) ''clicks'' = Num (Fin (of_nat c + 1))"
      and "\<forall>k. k \<noteq> ''clicks'' \<longrightarrow> get (CyclingObj (click cy)) k = get (workouts s ! n) k"
      by (simp_all add: get_click cy)
    moreover have "moveToPopup (Some i) s
        = (Returned, s\<lparr>lmap := Some (m\<lparr>center := get (workouts s ! n) ''coords'',
                                        zoom := mapZoomLevel\<rparr>),
                       workouts := (workouts s)[n := CyclingObj (click cy)]\<rparr>)"
      using fi assms(7) cy by (simp add: moveToPopup_def Let_def)
    ultimately show ?thesis by blast
  qed
qed


lemma renderWorkoutMarker_frame:
  "workouts (snd (renderWorkoutMarker w s)) = workouts s"
  by (simp add: renderWorkoutMarker_def split: option.splits)

lemma forEach_renderWorkoutMarker_frame:
  "workouts (snd (forEach renderWorkoutMarker ws s)) = workouts s"
proof (induction ws arbitrary: s)
  case Nil
  show ?case by simp
next
  case (Cons w ws)
  show ?case
  proof (cases "renderWorkoutMarker w s")
    case (Pair c s')
    with renderWorkoutMarker_frame[of w s] have s': "workouts s' = workouts s" by simp
    show ?thesis
    proof (cases c)
      case Returned
      with Pair Cons[of s'] s' show ?thesis by simp
    next
      case (Threw e)
      with Pair s' show ?thesis by simp
    qed
  qed
qed

lemma lmap_two: "\<exists>m. lmap two = Some m"
proof -
  obtain m where m: "lmap again = Some m" using again_facts(2) by auto
  from accepted_returns(7)[OF again_facts(1) m ride_accepted, of evening]
  show ?thesis by (simp add: two_def)
qed

text \<open>The theorem at the second of two records.\<close>

theorem click_counts_once_witness:
  "1 < length (workouts two) \<and>
   workouts two ! 1 = CyclingObj (Cycling evening lisbon (Fin 20) (Fin 60) (Fin (- 12))) \<and>
   get (workouts two ! 1) ''id'' = Str ''3730600052'' \<and>
   get (workouts two ! 0) ''id'' = Str ''3707204711'' \<and>
   get (workouts two ! 1) ''clicks'' = Num (Fin 0) \<and>
   fst (moveToPopup (Some ''3730600052'') two) = Returned \<and>
   get (workouts (snd (moveToPopup (Some ''3730600052'') two)) ! 1) ''clicks'' = Num (Fin 1) \<and>
   get (workouts (snd (moveToPopup (Some ''3730600052'') two)) ! 1) ''elevationGain''
     = Num (Fin (- 12)) \<and>
   workouts (snd (moveToPopup (Some ''3730600052'') two)) ! 0 = workouts two ! 0"
proof -
  obtain m where m: "lmap two = Some m" using lmap_two by auto
  have a: "1 < length (workouts two)" by (simp add: workouts_two)
  have b: "(\<exists>r. workouts two ! 1 = RunningObj r) \<or> (\<exists>cy. workouts two ! 1 = CyclingObj cy)"
    by (simp add: workouts_two)
  have c: "get (workouts two ! 1) ''id'' = Str ''3730600052''"
    by (simp add: workouts_two new_id_evening)
  have d: "\<forall>m < 1. \<not> nullish (workouts two ! m) \<and> get (workouts two ! m) ''id'' \<noteq> Str ''3730600052''"
    by (simp add: workouts_two new_id_noon)
  have e: "get (workouts two ! 1) ''clicks'' = Num (Fin (of_nat 0))"
    by (simp add: workouts_two get_def)
  have f: "(0::nat) < 2 ^ 53" by simp
  from click_counts_once[OF a b c d e f m]
  obtain w where mv: "moveToPopup (Some ''3730600052'') two
        = (Returned, two\<lparr>lmap := Some (m\<lparr>center := get (workouts two ! 1) ''coords'',
                                          zoom := mapZoomLevel\<rparr>),
                         workouts := (workouts two)[1 := w]\<rparr>)"
    and cl: "get w ''clicks'' = Num (Fin (of_nat 0 + 1))"
    and fr: "\<forall>k. k \<noteq> ''clicks'' \<longrightarrow> get w k = get (workouts two ! 1) k"
    by blast
  from fr have "get w ''elevationGain'' = get (workouts two ! 1) ''elevationGain''" by simp
  then have el: "get w ''elevationGain'' = Num (Fin (- 12))"
    by (simp add: workouts_two get_def)
  show ?thesis
    unfolding mv using cl el a c e by (simp add: workouts_two new_id_noon)
qed

lemma storage_again:
  "storage again
     = Some (to_json_elems [RunningObj (Running noon lisbon (to_double (52 / 10)) (Fin 24) (Fin 178))])"
proof -
  have m: "mapEvnt ready = Some lisbon"
    and l: "lmap ready = Some \<lparr>center = Arr [Num (fst lisbon), Num (snd lisbon)],
                              zoom = mapZoomLevel, markers = []\<rparr>"
    by (simp_all add: ready_eq)
  from accepted_returns(4)[OF m l run_accepted, of noon]
  show ?thesis by (simp add: again_def showForm_def ready_eq)
qed

lemma reloaded_facts:
  "workouts reloaded
     = of_json_elems (to_json_elems
         [RunningObj (Running noon lisbon (to_double (52 / 10)) (Fin 24) (Fin 178))])"
  "lmap reloaded \<noteq> None"
proof -
  show "workouts reloaded
     = of_json_elems (to_json_elems
         [RunningObj (Running noon lisbon (to_double (52 / 10)) (Fin 24) (Fin 178))])"
    by (simp only: reloaded_def loadMap_def forEach_renderWorkoutMarker_frame storage_again)
       (simp add: workouts_App)
  show "lmap reloaded \<noteq> None"
    by (simp add: reloaded_def loadMap_def storage_again App_def getLocalStorage_def
        renderWorkout_def renderWorkoutMarker_def Let_def)
qed

text \<open>
  Claim C10 as it is written covers every record of the store. After the page is opened
  again the record of the first run is a plain object: a click on its entry throws a
  TypeError at \<open>workout.click()\<close>, and its clicks stay 0.
\<close>

theorem click_on_loaded_record_throws:
  "get (workouts reloaded ! 0) ''id'' = Str ''3707204711'' \<and>
   get (workouts reloaded ! 0) ''clicks'' = Num (Fin 0) \<and>
   lmap reloaded \<noteq> None \<and>
   fst (moveToPopup (Some ''3707204711'') reloaded) = Threw TypeError \<and>
   workouts (snd (moveToPopup (Some ''3707204711'') reloaded)) = workouts reloaded"
proof -
  obtain m where m: "lmap reloaded = Some m" using reloaded_facts(2) by auto
  have ws: "workouts reloaded ! 0 = of_json (the (to_json
      (RunningObj (Running noon lisbon (to_double (52 / 10)) (Fin 24) (Fin 178)))))"
    by (simp add: reloaded_facts(1))
  have i: "get (workouts reloaded ! 0) ''id'' = Str ''3707204711''"
    and c: "get (workouts reloaded ! 0) ''clicks'' = Num (Fin 0)"
    unfolding ws by (simp_all add: get_def new_id_noon)
  have fi: "find_index (workouts reloaded) ''3707204711'' = Inr (Some 0)"
    using i by (simp add: reloaded_facts(1))
  have cc: "call_click (workouts reloaded ! 0) = Inl TypeError"
    unfolding ws by simp
  from fi cc m have "fst (moveToPopup (Some ''3707204711'') reloaded) = Threw TypeError"
    and "workouts (snd (moveToPopup (Some ''3707204711'') reloaded)) = workouts reloaded"
    by (simp_all add: moveToPopup_def Let_def)
  with i c reloaded_facts(2) show ?thesis by simp
qed


end
